theory Spec2Isabelle
  imports Complex_Main "HOL-Library.List_Lexorder" "HOL-Library.Product_Lexorder"
begin


section \<open>Numeric cells of a pandas Series\<close>

text \<open>
  A cell of a float64 column is a number, one of the two infinities, or the missing-value
  marker NaN. Finite numbers are taken as exact reals: rounding is outside this model.
  The special values are kept, because the scripts rely on them: \<open>diff\<close> and the rolling
  windows write NaN into their warm-up cells, and numpy's division by zero returns an
  infinity (or NaN for 0/0) instead of raising. Zero carries no sign here: a positive
  number divided by zero is the positive infinity. The divisor that can be zero in
  \<open>rsi_wilder\<close> is an average loss, and there the sign of the infinity is immaterial,
  since \<open>100 / (1 + rs)\<close> is zero for either infinity.
\<close>

datatype fl = NaN | NInf | PInf | Fin real

fun fneg :: "fl \<Rightarrow> fl" where
  "fneg NaN = NaN"
| "fneg NInf = PInf"
| "fneg PInf = NInf"
| "fneg (Fin a) = Fin (- a)"

fun fadd :: "fl \<Rightarrow> fl \<Rightarrow> fl" where
  "fadd (Fin a) (Fin b) = Fin (a + b)"
| "fadd NaN y = NaN"
| "fadd x NaN = NaN"
| "fadd PInf NInf = NaN"
| "fadd NInf PInf = NaN"
| "fadd PInf y = PInf"
| "fadd x PInf = PInf"
| "fadd NInf y = NInf"
| "fadd x NInf = NInf"

definition fsub :: "fl \<Rightarrow> fl \<Rightarrow> fl" where
  "fsub x y = fadd x (fneg y)"

definition inf_of_sign :: "real \<Rightarrow> fl" where
  \<comment> \<open>the infinity with the sign of a non-zero number; NaN for zero\<close>
  "inf_of_sign a = (if a = 0 then NaN else if 0 < a then PInf else NInf)"

fun fmul :: "fl \<Rightarrow> fl \<Rightarrow> fl" where
  "fmul (Fin a) (Fin b) = Fin (a * b)"
| "fmul NaN y = NaN"
| "fmul x NaN = NaN"
| "fmul (Fin a) PInf = inf_of_sign a"
| "fmul (Fin a) NInf = inf_of_sign (- a)"
| "fmul PInf (Fin b) = inf_of_sign b"
| "fmul NInf (Fin b) = inf_of_sign (- b)"
| "fmul PInf PInf = PInf"
| "fmul NInf NInf = PInf"
| "fmul PInf NInf = NInf"
| "fmul NInf PInf = NInf"

fun fdiv :: "fl \<Rightarrow> fl \<Rightarrow> fl" where
  "fdiv (Fin a) (Fin b) = (if b = 0 then inf_of_sign a else Fin (a / b))"
| "fdiv NaN y = NaN"
| "fdiv x NaN = NaN"
| "fdiv (Fin a) PInf = Fin 0"
| "fdiv (Fin a) NInf = Fin 0"
| "fdiv PInf (Fin b) = (if 0 \<le> b then PInf else NInf)"
| "fdiv NInf (Fin b) = (if 0 \<le> b then NInf else PInf)"
| "fdiv PInf y = NaN"
| "fdiv NInf y = NaN"

definition isna :: "fl \<Rightarrow> bool" where
  "isna x = (x = NaN)"

definition fsum :: "fl list \<Rightarrow> fl" where
  "fsum xs = foldl fadd (Fin 0) xs"

type_synonym series = "fl list"

subsection \<open>The Series operations the scripts call\<close>

definition diff :: "series \<Rightarrow> series" where
  \<comment> \<open>\<open>Series.diff()\<close>: the first cell has no predecessor and is NaN\<close>
  "diff xs = map (\<lambda>i. if i = 0 then NaN else fsub (xs ! i) (xs ! (i - 1))) [0..<length xs]"

fun clip_lower1 :: "real \<Rightarrow> fl \<Rightarrow> fl" where
  "clip_lower1 l NaN = NaN"
| "clip_lower1 l NInf = Fin l"
| "clip_lower1 l PInf = PInf"
| "clip_lower1 l (Fin a) = Fin (max a l)"

fun clip_upper1 :: "real \<Rightarrow> fl \<Rightarrow> fl" where
  "clip_upper1 u NaN = NaN"
| "clip_upper1 u NInf = NInf"
| "clip_upper1 u PInf = Fin u"
| "clip_upper1 u (Fin a) = Fin (min a u)"

definition clip_lower :: "real \<Rightarrow> series \<Rightarrow> series" where
  \<comment> \<open>\<open>Series.clip(lower=l)\<close>; a missing cell stays missing\<close>
  "clip_lower l xs = map (clip_lower1 l) xs"

definition clip_upper :: "real \<Rightarrow> series \<Rightarrow> series" where
  \<comment> \<open>\<open>Series.clip(upper=u)\<close>\<close>
  "clip_upper u xs = map (clip_upper1 u) xs"

definition window_at :: "nat \<Rightarrow> series \<Rightarrow> nat \<Rightarrow> fl list" where
  \<comment> \<open>the trailing window of at most \<open>w\<close> cells that ends at index \<open>i\<close>, inclusive\<close>
  "window_at w xs i = drop (i + 1 - w) (take (i + 1) xs)"

definition rolling_mean :: "nat \<Rightarrow> nat \<Rightarrow> series \<Rightarrow> series" where
  \<comment> \<open>\<open>Series.rolling(window=w, min_periods=m).mean()\<close>: the mean of the observed
      (non-NaN) cells of the window, NaN when fewer than \<open>m\<close> cells are observed\<close>
  "rolling_mean w m xs =
     map (\<lambda>i. let obs = filter (\<lambda>x. \<not> isna x) (window_at w xs i)
               in if m \<le> length obs \<and> 0 < length obs
                  then fdiv (fsum obs) (Fin (real (length obs))) else NaN)
         [0..<length xs]"

section \<open>prepare\_indicators.py\<close>

subsection \<open>rsi\_wilder\<close>

text \<open>
  The loop state is \<open>(prev_gain, prev_loss, avg_gain, avg_loss)\<close>. Before the first
  iteration \<open>prev_gain\<close> and \<open>prev_loss\<close> are unbound in the source; the first iteration
  (\<open>i = period\<close>) assigns them without reading them, so their initial value here is
  never read.
\<close>

type_synonym wilder_state = "fl \<times> fl \<times> series \<times> series"

definition wilder_step :: "nat \<Rightarrow> series \<Rightarrow> series \<Rightarrow> nat \<Rightarrow> wilder_state \<Rightarrow> wilder_state" where
  "wilder_step period gain loss i st =
     (case st of (prev_gain, prev_loss, avg_gain, avg_loss) \<Rightarrow>
        let prev_gain' = (if i = period then avg_gain ! i
                          else fdiv (fadd (fmul prev_gain (Fin (real period - 1))) (gain ! i))
                                    (Fin (real period)));
            prev_loss' = (if i = period then avg_loss ! i
                          else fdiv (fadd (fmul prev_loss (Fin (real period - 1))) (loss ! i))
                                    (Fin (real period)))
        in (prev_gain', prev_loss', avg_gain[i := prev_gain'], avg_loss[i := prev_loss']))"

definition gain_of :: "series \<Rightarrow> series" where
  "gain_of xs = clip_lower 0 (diff xs)"

definition loss_of :: "series \<Rightarrow> series" where
  "loss_of xs = map fneg (clip_upper 0 (diff xs))"

definition wilder_averages :: "series \<Rightarrow> nat \<Rightarrow> series \<times> series" where
  \<comment> \<open>lines 15 to 30: \<open>avg_gain\<close> and \<open>avg_loss\<close> as they stand after the loop\<close>
  "wilder_averages xs period =
     (let gain = gain_of xs;
          loss = loss_of xs;
          avg_gain = rolling_mean period period gain;
          avg_loss = rolling_mean period period loss;
          st = fold (wilder_step period gain loss) [period..<length xs]
                 (NaN, NaN, avg_gain, avg_loss)
      in (fst (snd (snd st)), snd (snd (snd st))))"

definition rsi_of :: "fl \<Rightarrow> fl \<Rightarrow> fl" where
  \<comment> \<open>lines 31 and 32 on one cell: \<open>rs = avg_gain / avg_loss\<close>, \<open>100 - 100 / (1 + rs)\<close>\<close>
  "rsi_of g l = fsub (Fin 100) (fdiv (Fin 100) (fadd (Fin 1) (fdiv g l)))"

definition rsi_wilder :: "series \<Rightarrow> nat \<Rightarrow> series" where
  "rsi_wilder xs period =
     (case wilder_averages xs period of (avg_gain, avg_loss) \<Rightarrow>
        map (\<lambda>i. rsi_of (avg_gain ! i) (avg_loss ! i)) [0..<length xs])"

text \<open>
  What the spec says of one step of a close series \<open>cs\<close>, in exact arithmetic:
  \<open>delta[t] = close[t] - close[t-1]\<close>, \<open>gain[t] = max(delta[t], 0)\<close>,
  \<open>loss[t] = max(-delta[t], 0)\<close>; the seed at \<open>t = period\<close> is the simple mean of
  \<open>g[1..period]\<close> and every later value is \<open>(previous * (period - 1) + g[t]) / period\<close>.
  \<open>wilder_from g p k\<close> is the smoothed average at index \<open>p + k\<close>.
\<close>

definition delta_at :: "real list \<Rightarrow> nat \<Rightarrow> real" where
  "delta_at cs t = cs ! t - cs ! (t - 1)"
definition gain_at :: "real list \<Rightarrow> nat \<Rightarrow> real" where
  "gain_at cs t = max (delta_at cs t) 0"
definition loss_at :: "real list \<Rightarrow> nat \<Rightarrow> real" where
  "loss_at cs t = max (- delta_at cs t) 0"

primrec wilder_from :: "(nat \<Rightarrow> real) \<Rightarrow> nat \<Rightarrow> nat \<Rightarrow> real" where
  "wilder_from g p 0 = sum_list (map g [1..<p + 1]) / real p"
| "wilder_from g p (Suc k) = (wilder_from g p k * (real p - 1) + g (p + Suc k)) / real p"

definition wilder_avg :: "(nat \<Rightarrow> real) \<Rightarrow> nat \<Rightarrow> nat \<Rightarrow> real" where
  "wilder_avg g p t = wilder_from g p (t - p)"


text \<open>Two sixteen-day close series used as concrete inputs below.\<close>

definition cs_up :: "real list" where
  "cs_up = [1, 2, 3, 4, 5, 6, 7, 8, 9, 10, 11, 12, 13, 14, 15, 16]"

definition cs_mixed :: "real list" where
  "cs_mixed = [10, 11, 12, 11, 12, 13, 14, 15, 16, 17, 18, 19, 20, 21, 22, 21]"


subsection \<open>macd\_pandas\<close>

text \<open>
  \<open>Series.ewm(span=s, adjust=False).mean()\<close> with pandas' defaults \<open>ignore_na=False\<close>
  and \<open>min_periods=0\<close>. The running state is the current average and the weight the
  average has kept since the last observed cell. On an observed cell the average becomes
  \<open>(old_wt * (1 - alpha) * average + alpha * x) / (old_wt * (1 - alpha) + alpha)\<close>
  and the kept weight returns to 1; a missing cell leaves the average and decays the
  kept weight; leading missing cells give NaN until the first observation.
\<close>

definition ewm_alpha :: "nat \<Rightarrow> real" where
  \<comment> \<open>\<open>alpha = 2 / (span + 1)\<close>\<close>
  "ewm_alpha span_n = 2 / (real span_n + 1)"

definition ewm_step :: "real \<Rightarrow> fl \<times> real \<Rightarrow> fl \<Rightarrow> fl \<times> real" where
  "ewm_step alpha st cur =
     (case st of (weighted, old_wt) \<Rightarrow>
        if \<not> isna weighted then
          (if \<not> isna cur then
             (fdiv (fadd (fmul (Fin (old_wt * (1 - alpha))) weighted) (fmul (Fin alpha) cur))
                   (Fin (old_wt * (1 - alpha) + alpha)), 1)
           else (weighted, old_wt * (1 - alpha)))
        else if \<not> isna cur then (cur, old_wt)
        else (weighted, old_wt))"

fun ewm_from :: "real \<Rightarrow> fl \<times> real \<Rightarrow> fl list \<Rightarrow> fl list" where
  "ewm_from alpha st [] = []"
| "ewm_from alpha st (x # xs) = (let st' = ewm_step alpha st x in fst st' # ewm_from alpha st' xs)"

definition ewm_mean :: "nat \<Rightarrow> series \<Rightarrow> series" where
  "ewm_mean span_n xs =
     (case xs of [] \<Rightarrow> [] | x # rest \<Rightarrow> x # ewm_from (ewm_alpha span_n) (x, 1) rest)"

definition series_sub :: "series \<Rightarrow> series \<Rightarrow> series" where
  \<comment> \<open>\<open>a - b\<close> on two Series with the same index\<close>
  "series_sub xs ys = map (\<lambda>(x, y). fsub x y) (zip xs ys)"

definition macd_pandas :: "series \<Rightarrow> nat \<Rightarrow> nat \<Rightarrow> nat \<Rightarrow> series \<times> series \<times> series" where
  "macd_pandas xs fast slow signal =
     (let ema_fast = ewm_mean fast xs;
          ema_slow = ewm_mean slow xs;
          macd = series_sub ema_fast ema_slow;
          macd_signal = ewm_mean signal macd;
          macd_hist = series_sub macd macd_signal
      in (macd, macd_signal, macd_hist))"

text \<open>
  The spec's recursion, in exact arithmetic: \<open>EMA[0] = x[0]\<close> and
  \<open>EMA[t] = alpha * x[t] + (1 - alpha) * EMA[t-1]\<close>.
\<close>

primrec ema :: "real \<Rightarrow> (nat \<Rightarrow> real) \<Rightarrow> nat \<Rightarrow> real" where
  "ema alpha x 0 = x 0"
| "ema alpha x (Suc t) = alpha * x (Suc t) + (1 - alpha) * ema alpha x t"

definition macd_line :: "real list \<Rightarrow> nat \<Rightarrow> real" where
  \<comment> \<open>\<open>MACD[t] = EMA(close, 12)[t] - EMA(close, 26)[t]\<close>\<close>
  "macd_line cs t = ema (2 / (12 + 1)) (\<lambda>i. cs ! i) t - ema (2 / (26 + 1)) (\<lambda>i. cs ! i) t"

definition signal_line :: "real list \<Rightarrow> nat \<Rightarrow> real" where
  \<comment> \<open>\<open>MACD_signal[t] = EMA(MACD, 9)[t]\<close>\<close>
  "signal_line cs t = ema (2 / (9 + 1)) (macd_line cs) t"

subsection \<open>process\_file\<close>

text \<open>
  A row of a price CSV after \<open>read_csv(parse_dates=["Date"])\<close>: the date as a day number
  and the five numeric columns. \<open>process_file\<close> sorts the rows by date and appends the
  indicator columns; the frame it writes is modelled by its sorted rows and its new
  columns. \<open>sort_key\<close> is stable, pandas' default sort need not be: rows with equal
  dates may come in another order there. The column \<open>volatility_20d\<close> (a rolling sample
  standard deviation of \<open>return\<close>) and the ta-lib branch, which leaves this repository,
  are not modelled.
\<close>

record bar =
  Date :: int
  Open :: real
  High :: real
  Low :: real
  Close :: real
  Volume :: real

definition pct_change :: "series \<Rightarrow> series" where
  \<comment> \<open>\<open>Series.pct_change()\<close> on a column without missing cells: \<open>x[t] / x[t-1] - 1\<close>\<close>
  "pct_change xs =
     map (\<lambda>i. if i = 0 then NaN else fsub (fdiv (xs ! i) (xs ! (i - 1))) (Fin 1)) [0..<length xs]"

record indicators =
  sorted_rows :: "bar list"
  ret :: series
  MA20 :: series
  MA50 :: series
  RSI14 :: series
  MACD :: series
  MACD_signal :: series
  MACD_hist :: series

definition process_file :: "bar list \<Rightarrow> indicators" where
  "process_file csv =
     (let df = sort_key Date csv;
          close = map (\<lambda>r. Fin (Close r)) df;
          (macd, signal, hist) = macd_pandas close 12 26 9
      in \<lparr> sorted_rows = df,
           ret = pct_change close,
           MA20 = rolling_mean 20 20 close,
           MA50 = rolling_mean 50 50 close,
           RSI14 = rsi_wilder close 14,
           MACD = macd, MACD_signal = signal, MACD_hist = hist \<rparr>)"

definition daily_bars :: "real \<Rightarrow> nat \<Rightarrow> bar list" where
  \<comment> \<open>\<open>n\<close> consecutive days whose close starts at \<open>c\<close> and rises by exactly 1 a day\<close>
  "daily_bars c n =
     map (\<lambda>i. \<lparr> Date = int i, Open = c + real i, High = c + real i, Low = c + real i,
                Close = c + real i, Volume = 0 \<rparr>) [0..<n]"


section \<open>sentiment\_analysis.py\<close>

subsection \<open>Cells, text and the fallback TextBlob\<close>

text \<open>
  A Python \<open>str\<close> is a sequence of Unicode code points, here a list of numbers; \<open>ascii\<close>
  writes one from an ASCII literal. What \<open>str.lower()\<close>, \<open>str.upper()\<close> and the class
  \<open>\w\<close> of \<open>re\<close> do with a code point is Python's Unicode database, which is no part of
  the repository: the three are parameters of the model, gathered in the record \<open>pystr\<close>.
  The case maps act on whole strings, since they may change the length of a string.
  \<open>ascii_fns\<close> is the instance that changes the 26 letters of ASCII and takes the
  letters, the digits and the underscore of ASCII as word characters; Python agrees with
  it on ASCII text.

  A cell handed to the script is Python's \<open>None\<close>, the missing-value marker that
  \<open>read_csv\<close> writes for an empty field, or a string.
\<close>

type_synonym ustring = "nat list"

definition ascii :: "string \<Rightarrow> ustring" where
  "ascii s = map of_char s"

record pystr =
  str_lower :: "ustring \<Rightarrow> ustring"
  str_upper :: "ustring \<Rightarrow> ustring"
  word_char :: "nat \<Rightarrow> bool"


definition ascii_lower_cp :: "nat \<Rightarrow> nat" where
  "ascii_lower_cp c = (if 65 \<le> c \<and> c \<le> 90 then c + 32 else c)"

definition ascii_upper_cp :: "nat \<Rightarrow> nat" where
  "ascii_upper_cp c = (if 97 \<le> c \<and> c \<le> 122 then c - 32 else c)"

definition ascii_word_cp :: "nat \<Rightarrow> bool" where
  "ascii_word_cp c = ((48 \<le> c \<and> c \<le> 57) \<or> (65 \<le> c \<and> c \<le> 90) \<or> c = 95 \<or> (97 \<le> c \<and> c \<le> 122))"

definition ascii_fns :: pystr where
  "ascii_fns = \<lparr> str_lower = map ascii_lower_cp, str_upper = map ascii_upper_cp,
                 word_char = ascii_word_cp \<rparr>"


datatype cell = PyNone | Missing | Text ustring

fun py_str :: "cell \<Rightarrow> ustring" where
  \<comment> \<open>\<open>str(x)\<close>, and \<open>astype(str)\<close> on one cell\<close>
  "py_str PyNone = ascii ''None''"
| "py_str Missing = ascii ''nan''"
| "py_str (Text s) = s"

fun notna :: "cell \<Rightarrow> bool" where
  "notna (Text s) = True"
| "notna c = False"

fun words_from :: "(nat \<Rightarrow> bool) \<Rightarrow> ustring \<Rightarrow> ustring \<Rightarrow> ustring list" where
  \<comment> \<open>the scan of \<open>re.findall(r"\w+", s)\<close> for the class \<open>w\<close>; \<open>cur\<close> is the run of word
      characters read so far\<close>
  "words_from w cur [] = (if cur = [] then [] else [cur])"
| "words_from w cur (c # cs) =
     (if w c then words_from w (cur @ [c]) cs
      else (if cur = [] then [] else [cur]) @ words_from w [] cs)"

definition findall_words :: "pystr \<Rightarrow> ustring \<Rightarrow> ustring list" where
  "findall_words u s = words_from (word_char u) [] s"

definition POS :: "ustring list" where
  "POS = map ascii
         [''good'', ''great'', ''positive'', ''up'', ''bull'', ''profit'', ''gain'',
          ''beat'', ''outperform'', ''strong'', ''improve'', ''increase'', ''surge'',
          ''rise'', ''grow'', ''growth'']"

definition NEG :: "ustring list" where
  "NEG = map ascii
         [''bad'', ''terrible'', ''negative'', ''down'', ''bear'', ''loss'', ''drop'',
          ''miss'', ''weak'', ''decline'', ''decrease'', ''fall'', ''plunge'']"

definition pos_count :: "ustring list \<Rightarrow> nat" where
  "pos_count ws = length (filter (\<lambda>w. w \<in> set POS) ws)"

definition neg_count :: "ustring list \<Rightarrow> nat" where
  "neg_count ws = length (filter (\<lambda>w. w \<in> set NEG) ws)"

definition TextBlob :: "pystr \<Rightarrow> cell \<Rightarrow> ustring" where
  \<comment> \<open>\<open>__init__\<close>: the text the shim keeps\<close>
  "TextBlob u text = (case text of PyNone \<Rightarrow> [] | _ \<Rightarrow> str_lower u (py_str text))"

definition sentiment_polarity :: "pystr \<Rightarrow> ustring \<Rightarrow> real" where
  \<comment> \<open>the property \<open>sentiment\<close> of the shim, on the kept text, then \<open>.polarity\<close>\<close>
  "sentiment_polarity u kept =
     (let ws = findall_words u kept
      in if ws = [] then 0
         else (real (pos_count ws) - real (neg_count ws)) / real (max 1 (length ws)))"

definition compute_polarity :: "pystr \<Rightarrow> cell \<Rightarrow> real" where
  \<comment> \<open>\<open>TextBlob(str(text)).sentiment.polarity\<close>; nothing in the shim raises, so the
      \<open>except\<close> branch is never taken\<close>
  "compute_polarity u text = sentiment_polarity u (TextBlob u (Text (py_str text)))"



subsection \<open>aggregate\_daily\_sentiment\<close>

text \<open>
  A parsed timestamp is a day number and the second within the day. The date parser of
  pandas is a parameter \<open>parse\<close>: it returns \<open>None\<close> for a string it cannot read.
  \<open>to_datetime(errors='coerce')\<close> turns such a string, and an empty cell, into \<open>NaT\<close>,
  which is \<open>None\<close> here.
\<close>

type_synonym timestamp = "int \<times> nat"

record news_row =
  date :: cell
  stock :: cell
  headline :: cell

record daily_sentiment =
  ticker :: ustring
  Date :: "timestamp option"
  avg_sentiment :: fl
  min_sentiment :: fl
  max_sentiment :: fl
  news_count :: nat

definition to_datetime_coerce :: "(ustring \<Rightarrow> timestamp option) \<Rightarrow> cell \<Rightarrow> timestamp option" where
  "to_datetime_coerce parse c = (case c of Text s \<Rightarrow> parse s | _ \<Rightarrow> None)"

definition news_ticker :: "pystr \<Rightarrow> news_row \<Rightarrow> ustring" where
  \<comment> \<open>\<open>news_df['stock'].astype(str).str.upper()\<close>\<close>
  "news_ticker u r = str_upper u (py_str (stock r))"

definition date_only :: "(ustring \<Rightarrow> timestamp option) \<Rightarrow> news_row \<Rightarrow> int option" where
  \<comment> \<open>\<open>news_df['date'].dt.date\<close>: the day of the coerced timestamp\<close>
  "date_only parse r = map_option fst (to_datetime_coerce parse (date r))"

definition group_keys :: "pystr \<Rightarrow> (ustring \<Rightarrow> timestamp option) \<Rightarrow> news_row list \<Rightarrow> (ustring \<times> int) list" where
  \<comment> \<open>the keys of \<open>groupby(['ticker', 'date_only'])\<close>: each key once, in sorted order;
      a row whose day is \<open>NaT\<close> belongs to no group\<close>
  "group_keys u parse news =
     sort (remdups (concat (map (\<lambda>r. case date_only parse r of None \<Rightarrow> []
                                      | Some d \<Rightarrow> [(news_ticker u r, d)]) news)))"

definition group_rows :: "pystr \<Rightarrow> (ustring \<Rightarrow> timestamp option) \<Rightarrow> news_row list \<Rightarrow> ustring \<times> int \<Rightarrow> news_row list" where
  "group_rows u parse news k =
     filter (\<lambda>r. news_ticker u r = fst k \<and> date_only parse r = Some (snd k)) news"

fun list_min :: "real list \<Rightarrow> real" where
  "list_min [] = 0"
| "list_min (x # xs) = fold min xs x"

fun list_max :: "real list \<Rightarrow> real" where
  "list_max [] = 0"
| "list_max (x # xs) = fold max xs x"

definition aggregate_group :: "pystr \<Rightarrow> ustring \<times> int \<Rightarrow> news_row list \<Rightarrow> daily_sentiment" where
  \<comment> \<open>one row of \<open>.agg(...)\<close>: mean, min and max of \<open>polarity\<close> over the rows of the group,
      and \<open>count\<close> of \<open>headline\<close>, which counts the cells that are not null\<close>
  "aggregate_group u k grp =
     (let pol = map (\<lambda>r. compute_polarity u (headline r)) grp
      in \<lparr> ticker = fst k,
           Date = Some (snd k, 0),
           avg_sentiment = Fin (sum_list pol / real (length pol)),
           min_sentiment = Fin (list_min pol),
           max_sentiment = Fin (list_max pol),
           news_count = length (filter (\<lambda>r. notna (headline r)) grp) \<rparr>)"

definition aggregate_daily_sentiment :: "pystr \<Rightarrow> (ustring \<Rightarrow> timestamp option) \<Rightarrow> news_row list \<Rightarrow> daily_sentiment list" where
  "aggregate_daily_sentiment u parse news =
     map (\<lambda>k. aggregate_group u k (group_rows u parse news k)) (group_keys u parse news)"


subsection \<open>prepare\_price\_df\<close>

text \<open>
  A row of the price CSV as \<open>read_csv\<close> returns it, with the date still a cell, and the
  row after \<open>prepare_price_df\<close>. The columns the script never reads are kept as they
  are in \<open>other\<close>. \<open>pd.to_datetime(price_df['Date'])\<close> has no \<open>errors\<close> argument: a
  string the parser cannot read raises, and the exception leaves \<open>main\<close>.
\<close>

datatype error = DateParseError

record price_csv_row =
  ticker_cell :: cell
  Date_cell :: cell
  Close_value :: real
  other_cells :: "ustring list"

record price_row =
  ticker :: ustring
  Date :: "timestamp option"
  Close :: real
  other :: "ustring list"
  daily_return :: fl

definition unparsable :: "(ustring \<Rightarrow> timestamp option) \<Rightarrow> cell \<Rightarrow> bool" where
  "unparsable parse c = (case c of Text s \<Rightarrow> parse s = None | _ \<Rightarrow> False)"

definition to_datetime_raise :: "(ustring \<Rightarrow> timestamp option) \<Rightarrow> cell list \<Rightarrow> error + timestamp option list" where
  \<comment> \<open>\<open>pd.to_datetime(column)\<close> with the default \<open>errors='raise'\<close>\<close>
  "to_datetime_raise parse cs =
     (if \<exists>c \<in> set cs. unparsable parse c then Inl DateParseError
      else Inr (map (to_datetime_coerce parse) cs))"

definition nat_last :: "timestamp option \<Rightarrow> nat \<times> int \<times> nat" where
  \<comment> \<open>the sort key of a date: \<open>NaT\<close> sorts after every timestamp\<close>
  "nat_last d = (case d of None \<Rightarrow> (1, 0, 0) | Some ts \<Rightarrow> (0, ts))"

definition group_pct_change :: "price_row list \<Rightarrow> nat \<Rightarrow> fl" where
  \<comment> \<open>\<open>groupby('ticker')['Close'].pct_change()\<close> at row \<open>i\<close>: the change from the
      nearest earlier row of the same ticker, NaN when there is none\<close>
  "group_pct_change df i =
     (case filter (\<lambda>j. price_row.ticker (df ! j) = price_row.ticker (df ! i)) [0..<i] of
        [] \<Rightarrow> NaN
      | j # js \<Rightarrow> fsub (fdiv (Fin (price_row.Close (df ! i)))
                              (Fin (price_row.Close (df ! last (j # js))))) (Fin 1))"

definition prepare_price_df :: "pystr \<Rightarrow> (ustring \<Rightarrow> timestamp option) \<Rightarrow> price_csv_row list \<Rightarrow> error + price_row list" where
  "prepare_price_df u parse csv =
     (case to_datetime_raise parse (map Date_cell csv) of
        Inl e \<Rightarrow> Inl e
      | Inr dates \<Rightarrow>
          let df = map (\<lambda>(r, d). \<lparr> price_row.ticker = str_upper u (py_str (ticker_cell r)),
                                    price_row.Date = d,
                                    price_row.Close = Close_value r,
                                    price_row.other = other_cells r,
                                    price_row.daily_return = NaN \<rparr>) (zip csv dates);
              df = sort_key (\<lambda>r. (price_row.ticker r, nat_last (price_row.Date r))) df
          in Inr (map (\<lambda>i. (df ! i) \<lparr> price_row.daily_return := group_pct_change df i \<rparr>)
                      [0..<length df]))"

subsection \<open>merge\_and\_analyze\<close>

text \<open>
  A merged row is the price row with the four sentiment columns appended. The left merge
  and the two \<open>fillna\<close> lines are taken together: a price row with no partner gets
  \<open>avg_sentiment = 0.0\<close> and \<open>news_count = 0\<close>, while \<open>min_sentiment\<close> and \<open>max_sentiment\<close>,
  which the script does not fill, stay NaN. pandas joins on equal keys, and takes two
  \<open>NaT\<close> dates as equal. \<open>scipy.stats.pearsonr\<close> is a parameter.
\<close>

record merged_row = price_row +
  avg_sentiment :: fl
  min_sentiment :: fl
  max_sentiment :: fl
  news_count :: int

record corr_result =
  pearson_r :: "fl option"
  p_value :: "fl option"
  n_obs :: nat

definition fillna0 :: "fl \<Rightarrow> fl" where
  \<comment> \<open>\<open>fillna(0.0)\<close> on one cell\<close>
  "fillna0 x = (if isna x then Fin 0 else x)"

definition partners :: "daily_sentiment list \<Rightarrow> price_row \<Rightarrow> daily_sentiment list" where
  \<comment> \<open>the sentiment rows with the key \<open>(ticker, Date)\<close> of a price row\<close>
  "partners sentiment_df p =
     filter (\<lambda>s. daily_sentiment.ticker s = price_row.ticker p
               \<and> daily_sentiment.Date s = price_row.Date p) sentiment_df"

definition with_sentiment :: "price_row \<Rightarrow> daily_sentiment option \<Rightarrow> merged_row" where
  "with_sentiment p so =
     (case so of
        None \<Rightarrow> price_row.extend p
          (merged_row.fields (fillna0 NaN) NaN NaN 0)
      | Some s \<Rightarrow> price_row.extend p
          (merged_row.fields (fillna0 (daily_sentiment.avg_sentiment s))
             (daily_sentiment.min_sentiment s) (daily_sentiment.max_sentiment s)
             (int (daily_sentiment.news_count s))))"

definition join_rows :: "daily_sentiment list \<Rightarrow> price_row \<Rightarrow> merged_row list" where
  \<comment> \<open>the merged rows of one price row: one for each partner, or one without sentiment\<close>
  "join_rows sentiment_df p =
     (case partners sentiment_df p of
        [] \<Rightarrow> [with_sentiment p None]
      | s # ss \<Rightarrow> map (\<lambda>s. with_sentiment p (Some s)) (s # ss))"

definition left_merge :: "price_row list \<Rightarrow> daily_sentiment list \<Rightarrow> merged_row list" where
  \<comment> \<open>\<open>price_df.merge(sentiment_df, on=['ticker','Date'], how='left')\<close>, in the order
      of the price rows\<close>
  "left_merge price_df sentiment_df = concat (map (join_rows sentiment_df) price_df)"

definition dropna_return :: "merged_row list \<Rightarrow> merged_row list" where
  \<comment> \<open>\<open>dropna(subset=['daily_return'])\<close>\<close>
  "dropna_return df = filter (\<lambda>m. \<not> isna (price_row.daily_return m)) df"

definition correlate :: "(fl list \<Rightarrow> fl list \<Rightarrow> fl \<times> fl) \<Rightarrow> merged_row list \<Rightarrow> fl option \<times> fl option" where
  \<comment> \<open>the gate of lines 88 and 96 on the rows left after \<open>dropna\<close>\<close>
  "correlate pearsonr tmp =
     (if 10 \<le> length tmp
      then (case pearsonr (map merged_row.avg_sentiment tmp) (map price_row.daily_return tmp) of
              (r, p) \<Rightarrow> (Some r, Some p))
      else (None, None))"

definition ticker_corr :: "(fl list \<Rightarrow> fl list \<Rightarrow> fl \<times> fl) \<Rightarrow> merged_row list \<Rightarrow> ustring \<Rightarrow> corr_result" where
  \<comment> \<open>the body of the loop over \<open>merged.groupby('ticker')\<close> for the group of ticker \<open>t\<close>\<close>
  "ticker_corr pearsonr merged t =
     (let grp = filter (\<lambda>m. price_row.ticker m = t) merged;
          tmp = dropna_return grp;
          (r, p) = correlate pearsonr tmp
      in \<lparr> pearson_r = r, p_value = p, n_obs = length tmp \<rparr>)"

definition merge_and_analyze ::
  "(fl list \<Rightarrow> fl list \<Rightarrow> fl \<times> fl) \<Rightarrow> price_row list \<Rightarrow> daily_sentiment list
     \<Rightarrow> merged_row list \<times> (ustring \<times> corr_result) list \<times> (fl option \<times> fl option)" where
  "merge_and_analyze pearsonr price_df sentiment_df =
     (let merged = left_merge price_df sentiment_df;
          per_ticker_corr = map (\<lambda>t. (t, ticker_corr pearsonr merged t))
                                (sort (remdups (map price_row.ticker merged)));
          g = dropna_return merged
      in (merged, per_ticker_corr, correlate pearsonr g))"


subsection \<open>Concrete inputs\<close>

text \<open>
  A date parser that reads two ISO dates (day numbers 18263 and 18264) and nothing else,
  a stand-in for \<open>pearsonr\<close>, and small news and price tables.
\<close>

definition example_parse :: "ustring \<Rightarrow> timestamp option" where
  "example_parse s =
     (if s = ascii ''2020-01-02'' then Some (18263, 0)
      else if s = ascii ''2020-01-03'' then Some (18264, 0) else None)"

definition pearson_stub :: "fl list \<Rightarrow> fl list \<Rightarrow> fl \<times> fl" where
  "pearson_stub xs ys = (Fin 0, Fin 1)"

definition news_null_headline :: "news_row list" where
  "news_null_headline = [\<lparr> date = Text (ascii ''2020-01-02''), stock = Text (ascii ''aapl''), headline = Missing \<rparr>]"

definition news_bad_date :: "news_row list" where
  "news_bad_date = [\<lparr> date = Text (ascii ''not-a-date''), stock = Text (ascii ''aapl''), headline = Text (ascii ''good'') \<rparr>]"

definition news_two_days :: "news_row list" where
  "news_two_days =
     [\<lparr> date = Text (ascii ''2020-01-03''), stock = Text (ascii ''aapl''), headline = Text (ascii ''Strong profit'') \<rparr>,
      \<lparr> date = Text (ascii ''2020-01-03''), stock = Text (ascii ''AAPL''), headline = Text (ascii ''weak guidance'') \<rparr>,
      \<lparr> date = Text (ascii ''2020-01-03''), stock = Text (ascii ''Aapl''), headline = Text (ascii ''shares up'') \<rparr>]"

definition prices_bad_date :: "price_csv_row list" where
  "prices_bad_date =
     [\<lparr> ticker_cell = Text (ascii ''aapl''), Date_cell = Text (ascii ''not-a-date''), Close_value = 10,
        other_cells = [] \<rparr>]"

definition prices_two_days :: "price_csv_row list" where
  "prices_two_days =
     [\<lparr> ticker_cell = Text (ascii ''aapl''), Date_cell = Text (ascii ''2020-01-03''), Close_value = 11,
        other_cells = [] \<rparr>,
      \<lparr> ticker_cell = Text (ascii ''aapl''), Date_cell = Text (ascii ''2020-01-02''), Close_value = 10,
        other_cells = [] \<rparr>]"



definition prepared_two_days :: "price_row list" where
  \<comment> \<open>\<open>prices_two_days\<close> after \<open>prepare_price_df\<close>\<close>
  "prepared_two_days =
     [\<lparr> price_row.ticker = ascii ''AAPL'', price_row.Date = Some (18263, 0), price_row.Close = 10,
        price_row.other = [], price_row.daily_return = NaN \<rparr>,
      \<lparr> price_row.ticker = ascii ''AAPL'', price_row.Date = Some (18264, 0), price_row.Close = 11,
        price_row.other = [], price_row.daily_return = Fin (1 / 10) \<rparr>]"



section \<open>Verification of rsi\_wilder\<close>

lemma foldl_fadd_Fin: "foldl fadd (Fin a) (map Fin rs) = Fin (a + sum_list rs)"
  by (induction rs arbitrary: a) (simp_all add: add.assoc)

lemma fsum_Fin: "fsum (map Fin rs) = Fin (sum_list rs)"
  by (simp add: fsum_def foldl_fadd_Fin)

lemma length_diff [simp]: "length (diff xs) = length xs"
  by (simp add: diff_def)

lemma diff_Fin_nth:
  "i < length cs \<Longrightarrow> diff (map Fin cs) ! i = (if i = 0 then NaN else Fin (delta_at cs i))"
  by (simp add: diff_def fsub_def delta_at_def)

lemma length_gain_of [simp]: "length (gain_of xs) = length xs"
  by (simp add: gain_of_def clip_lower_def)

lemma length_loss_of [simp]: "length (loss_of xs) = length xs"
  by (simp add: loss_of_def clip_upper_def)

lemma gain_of_Fin:
  "gain_of (map Fin cs) = map (\<lambda>i. if i = 0 then NaN else Fin (gain_at cs i)) [0..<length cs]"
  by (rule nth_equalityI) (simp_all add: gain_of_def clip_lower_def diff_Fin_nth gain_at_def)

lemma loss_of_Fin:
  "loss_of (map Fin cs) = map (\<lambda>i. if i = 0 then NaN else Fin (loss_at cs i)) [0..<length cs]"
  by (rule nth_equalityI) (auto simp add: loss_of_def clip_upper_def diff_Fin_nth loss_at_def max_def min_def)

lemma length_rolling_mean [simp]: "length (rolling_mean w m xs) = length xs"
  by (simp add: rolling_mean_def)

lemma window_short:
  assumes "i < p" "i < n"
  shows "window_at p (map (\<lambda>i. if i = 0 then NaN else Fin (g i)) [0..<n]) i
         = NaN # map (\<lambda>i. Fin (g i)) [1..<i + 1]"
proof -
  have "i + 1 - p = 0" using assms by simp
  moreover have "[0..<i + 1] = 0 # [1..<i + 1]" by (simp add: upt_rec)
  ultimately show ?thesis using assms
    by (simp add: window_at_def take_map drop_map)
qed

lemma window_full:
  assumes "p \<le> i" "i < n" "0 < p"
  shows "window_at p (map (\<lambda>i. if i = 0 then NaN else Fin (g i)) [0..<n]) i
         = map Fin (map g [i + 1 - p..<i + 1])"
  using assms by (auto simp add: window_at_def take_map drop_map)

lemma rolling_mean_gain_nth:
  assumes "i < n" "0 < p"
  shows "rolling_mean p p (map (\<lambda>i. if i = 0 then NaN else Fin (g i)) [0..<n]) ! i
         = (if i < p then NaN else Fin (sum_list (map g [i + 1 - p..<i + 1]) / real p))"
proof (cases "i < p")
  case True
  then show ?thesis using assms
    by (simp add: rolling_mean_def window_short isna_def Let_def filter_map comp_def)
next
  case False
  then have "p \<le> i" by simp
  then show ?thesis using assms
    by (simp add: rolling_mean_def window_full [OF \<open>p \<le> i\<close>] isna_def Let_def fsum_Fin del: map_map)
qed


lemma wilder_fold:
  assumes p: "0 < p"
    and len: "length ag0 = n" "length al0 = n"
    and gain: "\<forall>i. 0 < i \<and> i < n \<longrightarrow> gain ! i = Fin (g i)"
    and loss: "\<forall>i. 0 < i \<and> i < n \<longrightarrow> loss ! i = Fin (l i)"
    and seed: "p < n \<longrightarrow> ag0 ! p = Fin (wilder_from g p 0) \<and> al0 ! p = Fin (wilder_from l p 0)"
  shows "p + k \<le> n \<Longrightarrow>
    \<exists>pg pl ag al. fold (wilder_step p gain loss) [p..<p + k] (x, y, ag0, al0) = (pg, pl, ag, al)
      \<and> length ag = n \<and> length al = n
      \<and> (\<forall>i<n. ag ! i = (if p \<le> i \<and> i < p + k then Fin (wilder_from g p (i - p)) else ag0 ! i))
      \<and> (\<forall>i<n. al ! i = (if p \<le> i \<and> i < p + k then Fin (wilder_from l p (i - p)) else al0 ! i))
      \<and> (0 < k \<longrightarrow> pg = Fin (wilder_from g p (k - 1)) \<and> pl = Fin (wilder_from l p (k - 1)))"
proof (induction k)
  case 0
  then show ?case using len by auto
next
  case (Suc k)
  then have le: "p + k \<le> n" and lt: "p + k < n" by simp_all
  from Suc.IH [OF le] obtain pg pl ag al where
    st: "fold (wilder_step p gain loss) [p..<p + k] (x, y, ag0, al0) = (pg, pl, ag, al)"
    and la: "length ag = n" "length al = n"
    and ag: "\<forall>i<n. ag ! i = (if p \<le> i \<and> i < p + k then Fin (wilder_from g p (i - p)) else ag0 ! i)"
    and al: "\<forall>i<n. al ! i = (if p \<le> i \<and> i < p + k then Fin (wilder_from l p (i - p)) else al0 ! i)"
    and pv: "0 < k \<longrightarrow> pg = Fin (wilder_from g p (k - 1)) \<and> pl = Fin (wilder_from l p (k - 1))"
    by blast
  define pg' where "pg' = (if p + k = p then ag ! (p + k)
      else fdiv (fadd (fmul pg (Fin (real p - 1))) (gain ! (p + k))) (Fin (real p)))"
  define pl' where "pl' = (if p + k = p then al ! (p + k)
      else fdiv (fadd (fmul pl (Fin (real p - 1))) (loss ! (p + k))) (Fin (real p)))"
  have step: "fold (wilder_step p gain loss) [p..<p + Suc k] (x, y, ag0, al0)
      = (pg', pl', ag[p + k := pg'], al[p + k := pl'])"
    by (simp add: st wilder_step_def pg'_def pl'_def Let_def)
  have pg': "pg' = Fin (wilder_from g p k)"
  proof (cases k)
    case 0
    then show ?thesis using ag lt seed by (simp add: pg'_def)
  next
    case (Suc j)
    then show ?thesis using pv gain lt p by (simp add: pg'_def)
  qed
  have pl': "pl' = Fin (wilder_from l p k)"
  proof (cases k)
    case 0
    then show ?thesis using al lt seed by (simp add: pl'_def)
  next
    case (Suc j)
    then show ?thesis using pv loss lt p by (simp add: pl'_def)
  qed
  have "\<forall>i<n. (ag[p + k := pg']) ! i
      = (if p \<le> i \<and> i < p + Suc k then Fin (wilder_from g p (i - p)) else ag0 ! i)"
    using ag la lt by (auto simp add: nth_list_update pg')
  moreover have "\<forall>i<n. (al[p + k := pl']) ! i
      = (if p \<le> i \<and> i < p + Suc k then Fin (wilder_from l p (i - p)) else al0 ! i)"
    using al la lt by (auto simp add: nth_list_update pl')
  ultimately show ?case using step la pg' pl' by simp
qed


lemma wilder_averages_Fin:
  assumes p: "0 < p"
  shows "wilder_averages (map Fin cs) p =
     (map (\<lambda>i. if i < p then NaN else Fin (wilder_avg (gain_at cs) p i)) [0..<length cs],
      map (\<lambda>i. if i < p then NaN else Fin (wilder_avg (loss_at cs) p i)) [0..<length cs])"
proof -
  define n where "n = length cs"
  define gain where "gain = gain_of (map Fin cs)"
  define loss where "loss = loss_of (map Fin cs)"
  define ag0 where "ag0 = rolling_mean p p gain"
  define al0 where "al0 = rolling_mean p p loss"
  define st where "st = fold (wilder_step p gain loss) [p..<n] (NaN, NaN, ag0, al0)"
  have wa: "wilder_averages (map Fin cs) p = (fst (snd (snd st)), snd (snd (snd st)))"
    by (simp add: wilder_averages_def Let_def st_def ag0_def al0_def gain_def loss_def n_def)
  have gain: "gain = map (\<lambda>i. if i = 0 then NaN else Fin (gain_at cs i)) [0..<n]"
    by (simp add: gain_def gain_of_Fin n_def)
  have loss: "loss = map (\<lambda>i. if i = 0 then NaN else Fin (loss_at cs i)) [0..<n]"
    by (simp add: loss_def loss_of_Fin n_def)
  have len: "length ag0 = n" "length al0 = n"
    by (simp_all add: ag0_def al0_def gain loss)
  have ag0: "\<forall>i<n. ag0 ! i = (if i < p then NaN
      else Fin (sum_list (map (gain_at cs) [i + 1 - p..<i + 1]) / real p))"
    using p by (simp add: ag0_def gain rolling_mean_gain_nth)
  have al0: "\<forall>i<n. al0 ! i = (if i < p then NaN
      else Fin (sum_list (map (loss_at cs) [i + 1 - p..<i + 1]) / real p))"
    using p by (simp add: al0_def loss rolling_mean_gain_nth)
  have g: "\<forall>i. 0 < i \<and> i < n \<longrightarrow> gain ! i = Fin (gain_at cs i)"
    by (simp add: gain)
  have l: "\<forall>i. 0 < i \<and> i < n \<longrightarrow> loss ! i = Fin (loss_at cs i)"
    by (simp add: loss)
  have seed: "p < n \<longrightarrow> ag0 ! p = Fin (wilder_from (gain_at cs) p 0)
      \<and> al0 ! p = Fin (wilder_from (loss_at cs) p 0)"
    using ag0 al0 by simp
  have res: "length (fst (snd (snd st))) = n \<and> length (snd (snd (snd st))) = n
      \<and> (\<forall>i<n. fst (snd (snd st)) ! i
            = (if i < p then NaN else Fin (wilder_avg (gain_at cs) p i)))
      \<and> (\<forall>i<n. snd (snd (snd st)) ! i
            = (if i < p then NaN else Fin (wilder_avg (loss_at cs) p i)))"
  proof (cases "p \<le> n")
    case True
    then have k: "p + (n - p) \<le> n" and upt: "[p..<n] = [p..<p + (n - p)]" by simp_all
    from wilder_fold [OF p len g l seed k, of NaN NaN]
    obtain pg pl ag al where
      "fold (wilder_step p gain loss) [p..<p + (n - p)] (NaN, NaN, ag0, al0) = (pg, pl, ag, al)"
      and la: "length ag = n" "length al = n"
      and ag: "\<forall>i<n. ag ! i
         = (if p \<le> i \<and> i < p + (n - p) then Fin (wilder_from (gain_at cs) p (i - p)) else ag0 ! i)"
      and al: "\<forall>i<n. al ! i
         = (if p \<le> i \<and> i < p + (n - p) then Fin (wilder_from (loss_at cs) p (i - p)) else al0 ! i)"
      by blast
    then have st: "st = (pg, pl, ag, al)" using upt by (simp add: st_def)
    show ?thesis using la ag al ag0 al0 True
      by (auto simp add: st wilder_avg_def)
  next
    case False
    then have "st = (NaN, NaN, ag0, al0)" by (simp add: st_def)
    then show ?thesis using len ag0 al0 False by auto
  qed
  have "fst (snd (snd st))
      = map (\<lambda>i. if i < p then NaN else Fin (wilder_avg (gain_at cs) p i)) [0..<n]"
    using res by (intro nth_equalityI) simp_all
  moreover have "snd (snd (snd st))
      = map (\<lambda>i. if i < p then NaN else Fin (wilder_avg (loss_at cs) p i)) [0..<n]"
    using res by (intro nth_equalityI) simp_all
  ultimately show ?thesis unfolding wa n_def [symmetric] by simp
qed


lemma length_rsi_wilder [simp]: "length (rsi_wilder xs p) = length xs"
  by (simp add: rsi_wilder_def split: prod.split)

lemma rsi_wilder_Fin_nth:
  assumes "0 < p" "t < length cs"
  shows "rsi_wilder (map Fin cs) p ! t =
     (if t < p then NaN
      else rsi_of (Fin (wilder_avg (gain_at cs) p t)) (Fin (wilder_avg (loss_at cs) p t)))"
  using assms by (simp add: rsi_wilder_def wilder_averages_Fin rsi_of_def fsub_def)

lemma sum_list_map_zero:
  fixes f :: "'a \<Rightarrow> real"
  shows "\<forall>x\<in>set xs. f x = 0 \<Longrightarrow> sum_list (map f xs) = 0"
  by (induction xs) simp_all

lemma sum_list_map_pos:
  fixes f :: "'a \<Rightarrow> real"
  shows "xs \<noteq> [] \<Longrightarrow> \<forall>x\<in>set xs. 0 < f x \<Longrightarrow> 0 < sum_list (map f xs)"
proof (induction xs)
  case Nil
  then show ?case by simp
next
  case (Cons x xs)
  show ?case
  proof (cases "xs = []")
    case True
    then show ?thesis using Cons.prems by simp
  next
    case False
    then have "0 < sum_list (map f xs)" using Cons by simp
    moreover have "0 < f x" using Cons.prems by simp
    ultimately show ?thesis by simp
  qed
qed

lemma wilder_from_zero:
  assumes "\<forall>i. 0 < i \<and> i \<le> p + k \<longrightarrow> l i = 0"
  shows "wilder_from l p k = 0"
  using assms
proof (induction k)
  case 0
  have "sum_list (map l [1..<p + 1]) = 0"
    using 0 by (intro sum_list_map_zero) auto
  then show ?case by (simp del: upt_Suc)
next
  case (Suc k)
  then show ?case by simp
qed

lemma wilder_from_pos:
  assumes "0 < p" "\<forall>i. 0 < i \<and> i \<le> p + k \<longrightarrow> 0 < g i"
  shows "0 < wilder_from g p k"
  using assms
proof (induction k)
  case 0
  have "0 < sum_list (map g [1..<p + 1])"
    using 0 by (intro sum_list_map_pos) auto
  then show ?case using \<open>0 < p\<close> by (simp del: upt_Suc)
next
  case (Suc k)
  then have "0 < wilder_from g p k" and "0 < g (p + Suc k)" by simp_all
  moreover have "0 \<le> real p - 1" using \<open>0 < p\<close> by simp
  ultimately have "0 < wilder_from g p k * (real p - 1) + g (p + Suc k)"
    by (simp add: add_nonneg_pos)
  then show ?case using \<open>0 < p\<close> by simp
qed

lemma rsi_of_all_gain: "0 < a \<Longrightarrow> rsi_of (Fin a) (Fin 0) = Fin 100"
  by (simp add: rsi_of_def fsub_def inf_of_sign_def)

lemma wilder_increasing:
  assumes inc: "sorted_wrt (<) cs" and t: "t < length cs" and t14: "14 \<le> t"
  shows "wilder_avg (loss_at cs) 14 t = 0" and "0 < wilder_avg (gain_at cs) 14 t"
proof -
  have d: "0 < delta_at cs i" if "0 < i" "i < length cs" for i
  proof -
    from that obtain j where "i = Suc j" by (cases i) auto
    then show ?thesis using inc that by (simp add: delta_at_def sorted_wrt_iff_nth_less)
  qed
  show "wilder_avg (loss_at cs) 14 t = 0"
    unfolding wilder_avg_def
  proof (rule wilder_from_zero, intro allI impI)
    fix i assume "0 < i \<and> i \<le> 14 + (t - 14)"
    then have "0 < i" "i < length cs" using t t14 by simp_all
    from d [OF this] show "loss_at cs i = 0" by (simp add: loss_at_def)
  qed
  show "0 < wilder_avg (gain_at cs) 14 t"
    unfolding wilder_avg_def
  proof (rule wilder_from_pos, simp, intro allI impI)
    fix i assume "0 < i \<and> i \<le> 14 + (t - 14)"
    then have "0 < i" "i < length cs" using t t14 by simp_all
    from d [OF this] show "0 < gain_at cs i" by (simp add: gain_at_def)
  qed
qed

lemma rsi_wilder_increasing:
  assumes inc: "sorted_wrt (<) cs" and t: "t < length cs"
  shows "rsi_wilder (map Fin cs) 14 ! t = (if t < 14 then NaN else Fin 100)"
proof (cases "t < 14")
  case True
  then show ?thesis using t by (simp add: rsi_wilder_Fin_nth)
next
  case False
  then have "14 \<le> t" by simp
  from wilder_increasing [OF inc t this] False t show ?thesis
    by (simp add: rsi_wilder_Fin_nth rsi_of_all_gain)
qed

lemma avg_loss_increasing:
  assumes inc: "sorted_wrt (<) cs" and t: "t < length cs" and t14: "14 \<le> t"
  shows "snd (wilder_averages (map Fin cs) 14) ! t = Fin 0"
  using wilder_increasing(1) [OF inc t t14] t t14 by (simp add: wilder_averages_Fin)

text \<open>
  Claim C1. On a strictly increasing close series every defined RSI14 cell is 100: the
  cells below index 14 are NaN, and from index 14 on the average loss is 0, the ratio
  \<open>avg_gain / avg_loss\<close> is the positive infinity, and \<open>100 - 100 / (1 + rs)\<close> is 100.
\<close>

theorem rsi_wilder_all_gains:
  assumes inc: "sorted_wrt (<) cs"
    and t: "t < length cs"
  shows "(rsi_wilder (map Fin cs) 14 ! t \<noteq> NaN \<longrightarrow> rsi_wilder (map Fin cs) 14 ! t = Fin 100)
    \<and> (14 \<le> t \<longrightarrow> snd (wilder_averages (map Fin cs) 14) ! t = Fin 0
                  \<and> rsi_wilder (map Fin cs) 14 ! t = Fin 100)"
proof -
  have r: "rsi_wilder (map Fin cs) 14 ! t = (if t < 14 then NaN else Fin 100)"
    using inc t by (rule rsi_wilder_increasing)
  have "snd (wilder_averages (map Fin cs) 14) ! t = Fin 0" if "14 \<le> t"
    using inc t that by (rule avg_loss_increasing)
  with r show ?thesis by auto
qed

text \<open>
  Claim C2. \<open>rsi_wilder\<close> follows Wilder's method on every close series: RSI14 is NaN
  below index 14; at index 14 the averages are the simple means of \<open>gain[1..14]\<close> and
  \<open>loss[1..14]\<close>; past index 14 each average is \<open>(previous * 13 + current) / 14\<close>;
  and from index 14 on \<open>RSI = 100 - 100 / (1 + avg_gain / avg_loss)\<close>.
\<close>

theorem rsi_wilder_method:
  assumes avgs: "wilder_averages (map Fin cs) 14 = (avg_gain, avg_loss)"
  shows "length (rsi_wilder (map Fin cs) 14) = length cs
    \<and> (\<forall>t<length cs. t < 14 \<longrightarrow> rsi_wilder (map Fin cs) 14 ! t = NaN)
    \<and> (14 < length cs \<longrightarrow>
          avg_gain ! 14 = Fin (sum_list (map (gain_at cs) [1..<15]) / 14)
        \<and> avg_loss ! 14 = Fin (sum_list (map (loss_at cs) [1..<15]) / 14))
    \<and> (\<forall>t<length cs. 14 < t \<longrightarrow>
          avg_gain ! t = fdiv (fadd (fmul (avg_gain ! (t - 1)) (Fin 13)) (Fin (gain_at cs t))) (Fin 14)
        \<and> avg_loss ! t = fdiv (fadd (fmul (avg_loss ! (t - 1)) (Fin 13)) (Fin (loss_at cs t))) (Fin 14))
    \<and> (\<forall>t<length cs. 14 \<le> t \<longrightarrow>
          avg_gain ! t = Fin (wilder_avg (gain_at cs) 14 t)
        \<and> avg_loss ! t = Fin (wilder_avg (loss_at cs) 14 t)
        \<and> rsi_wilder (map Fin cs) 14 ! t
            = fsub (Fin 100) (fdiv (Fin 100) (fadd (Fin 1) (fdiv (avg_gain ! t) (avg_loss ! t)))))"
proof -
  have ag: "avg_gain = map (\<lambda>i. if i < 14 then NaN else Fin (wilder_avg (gain_at cs) 14 i)) [0..<length cs]"
    and al: "avg_loss = map (\<lambda>i. if i < 14 then NaN else Fin (wilder_avg (loss_at cs) 14 i)) [0..<length cs]"
    using avgs by (simp_all add: wilder_averages_Fin)
  have seed: "wilder_avg g 14 14 = sum_list (map g [1..<15]) / 14" for g
    by (simp add: wilder_avg_def del: upt_Suc)
  have rec: "wilder_avg g 14 t = (wilder_avg g 14 (t - 1) * 13 + g t) / 14" if "14 < t" for g t
  proof -
    from that obtain k where k: "t = 14 + Suc k"
      by (metis add_Suc_right less_iff_Suc_add)
    show ?thesis by (simp add: wilder_avg_def k)
  qed
  have c1: "length (rsi_wilder (map Fin cs) 14) = length cs" by simp
  have c2: "\<forall>t<length cs. t < 14 \<longrightarrow> rsi_wilder (map Fin cs) 14 ! t = NaN"
    by (simp add: rsi_wilder_Fin_nth)
  have c3: "14 < length cs \<longrightarrow>
          avg_gain ! 14 = Fin (sum_list (map (gain_at cs) [1..<15]) / 14)
        \<and> avg_loss ! 14 = Fin (sum_list (map (loss_at cs) [1..<15]) / 14)"
    by (simp add: ag al seed del: upt_Suc)
  have c4: "\<forall>t<length cs. 14 < t \<longrightarrow>
          avg_gain ! t = fdiv (fadd (fmul (avg_gain ! (t - 1)) (Fin 13)) (Fin (gain_at cs t))) (Fin 14)
        \<and> avg_loss ! t = fdiv (fadd (fmul (avg_loss ! (t - 1)) (Fin 13)) (Fin (loss_at cs t))) (Fin 14)"
  proof (intro allI impI)
    fix t assume t: "t < length cs" "14 < t"
    then have t1: "t - 1 < length cs" "\<not> t - 1 < 14" "\<not> t < 14" by simp_all
    show "avg_gain ! t = fdiv (fadd (fmul (avg_gain ! (t - 1)) (Fin 13)) (Fin (gain_at cs t))) (Fin 14)
        \<and> avg_loss ! t = fdiv (fadd (fmul (avg_loss ! (t - 1)) (Fin 13)) (Fin (loss_at cs t))) (Fin 14)"
      using t t1 rec [OF t(2), of "gain_at cs"] rec [OF t(2), of "loss_at cs"]
      by (simp add: ag al)
  qed
  have c5: "\<forall>t<length cs. 14 \<le> t \<longrightarrow>
          avg_gain ! t = Fin (wilder_avg (gain_at cs) 14 t)
        \<and> avg_loss ! t = Fin (wilder_avg (loss_at cs) 14 t)
        \<and> rsi_wilder (map Fin cs) 14 ! t
            = fsub (Fin 100) (fdiv (Fin 100) (fadd (Fin 1) (fdiv (avg_gain ! t) (avg_loss ! t))))"
    by (simp add: rsi_wilder_Fin_nth ag al rsi_of_def)
  from c1 c2 c3 c4 c5 show ?thesis by blast
qed

theorem rsi_wilder_all_gains_witness:
  "sorted_wrt (<) cs_up \<and> snd (wilder_averages (map Fin cs_up) 14) ! 15 = Fin 0
   \<and> rsi_wilder (map Fin cs_up) 14 ! 15 = Fin 100"
proof -
  have inc: "sorted_wrt (<) cs_up" by (simp add: cs_up_def)
  have t: "15 < length cs_up" by (simp add: cs_up_def)
  from rsi_wilder_all_gains [OF inc t, THEN conjunct2] inc show ?thesis by simp
qed

lemma upt_1_15: "[1..<15] = [1, 2, 3, 4, 5, 6, 7, 8, 9, 10, 11, 12, 13, 14 :: nat]"
  by code_simp

theorem rsi_wilder_method_witness:
  "fst (wilder_averages (map Fin cs_mixed) 14) ! 14 = Fin (13 / 14)
   \<and> snd (wilder_averages (map Fin cs_mixed) 14) ! 14 = Fin (1 / 14)
   \<and> fst (wilder_averages (map Fin cs_mixed) 14) ! 15 = Fin (169 / 196)
   \<and> snd (wilder_averages (map Fin cs_mixed) 14) ! 15 = Fin (27 / 196)
   \<and> rsi_wilder (map Fin cs_mixed) 14 ! 13 = NaN
   \<and> rsi_wilder (map Fin cs_mixed) 14 ! 14 = Fin (650 / 7)
   \<and> rsi_wilder (map Fin cs_mixed) 14 ! 15 = Fin (4225 / 49)"
proof -
  define ag where "ag = fst (wilder_averages (map Fin cs_mixed) 14)"
  define al where "al = snd (wilder_averages (map Fin cs_mixed) 14)"
  have avgs: "wilder_averages (map Fin cs_mixed) 14 = (ag, al)" by (simp add: ag_def al_def)
  have len: "length cs_mixed = 16" by (simp add: cs_mixed_def)
  note m = rsi_wilder_method [OF avgs, unfolded len]
  have g: "sum_list (map (gain_at cs_mixed) [1..<15]) = 13" "gain_at cs_mixed 15 = 0"
    and l: "sum_list (map (loss_at cs_mixed) [1..<15]) = 1" "loss_at cs_mixed 15 = 1"
    by (simp_all only: upt_1_15) (simp_all add: gain_at_def loss_at_def delta_at_def cs_mixed_def)
  have a14: "ag ! 14 = Fin (13 / 14)" "al ! 14 = Fin (1 / 14)"
    using m [THEN conjunct2, THEN conjunct2, THEN conjunct1] g l by simp_all
  have a15: "ag ! 15 = Fin (169 / 196)" "al ! 15 = Fin (27 / 196)"
    using m [THEN conjunct2, THEN conjunct2, THEN conjunct2, THEN conjunct1, rule_format, of 15] a14 g l
    by simp_all
  have r13: "rsi_wilder (map Fin cs_mixed) 14 ! 13 = NaN"
    using m [THEN conjunct2, THEN conjunct1, rule_format, of 13] by simp
  have r14: "rsi_wilder (map Fin cs_mixed) 14 ! 14 = Fin (650 / 7)"
    using m [THEN conjunct2, THEN conjunct2, THEN conjunct2, THEN conjunct2, rule_format, of 14] a14
    by (simp add: fsub_def)
  have r15: "rsi_wilder (map Fin cs_mixed) 14 ! 15 = Fin (4225 / 49)"
    using m [THEN conjunct2, THEN conjunct2, THEN conjunct2, THEN conjunct2, rule_format, of 15] a15
    by (simp add: fsub_def)
  from a14 a15 r13 r14 r15 show ?thesis unfolding ag_def al_def by blast
qed


section \<open>Verification of macd\_pandas\<close>

lemma ewm_step_Fin: "ewm_step a (Fin w, 1) (Fin c) = (Fin (a * c + (1 - a) * w), 1)"
  by (simp add: ewm_step_def isna_def algebra_simps)

lemma ewm_from_Fin:
  "ewm_from a (Fin (ema a x k), 1) (map (\<lambda>i. Fin (x i)) [Suc k..<n])
     = map (\<lambda>i. Fin (ema a x i)) [Suc k..<n]"
proof (induction "n - Suc k" arbitrary: k)
  case 0
  then show ?case by simp
next
  case (Suc m)
  then have lt: "Suc k < n" and m: "m = n - Suc (Suc k)" by simp_all
  have "[Suc k..<n] = Suc k # [Suc (Suc k)..<n]" using lt by (simp add: upt_conv_Cons)
  then show ?case using Suc.hyps(1) [OF m] by (simp add: ewm_step_Fin Let_def)
qed

lemma ewm_mean_Fin:
  "ewm_mean s (map (\<lambda>i. Fin (x i)) [0..<n]) = map (\<lambda>i. Fin (ema (ewm_alpha s) x i)) [0..<n]"
proof (cases n)
  case 0
  then show ?thesis by (simp add: ewm_mean_def)
next
  case (Suc m)
  then have "[0..<n] = 0 # [Suc 0..<n]" by (simp add: upt_conv_Cons)
  then show ?thesis using ewm_from_Fin [of "ewm_alpha s" x 0 n] by (simp add: ewm_mean_def)
qed

lemma series_sub_Fin:
  "series_sub (map (\<lambda>i. Fin (a i)) [0..<n]) (map (\<lambda>i. Fin (b i)) [0..<n])
     = map (\<lambda>i. Fin (a i - b i)) [0..<n]"
  by (rule nth_equalityI) (simp_all add: series_sub_def fsub_def)

lemma map_Fin_nth: "map Fin cs = map (\<lambda>i. Fin (cs ! i)) [0..<length cs]"
  by (rule nth_equalityI) simp_all

lemma macd_pandas_Fin:
  "macd_pandas (map Fin cs) 12 26 9 =
     (map (\<lambda>t. Fin (macd_line cs t)) [0..<length cs],
      map (\<lambda>t. Fin (signal_line cs t)) [0..<length cs],
      map (\<lambda>t. Fin (macd_line cs t - signal_line cs t)) [0..<length cs])"
proof -
  have a: "ewm_alpha 12 = 2 / (12 + 1)" "ewm_alpha 26 = 2 / (26 + 1)" "ewm_alpha 9 = 2 / (9 + 1)"
    by (simp_all add: ewm_alpha_def)
  have f: "ewm_mean 12 (map Fin cs) = map (\<lambda>t. Fin (ema (2 / (12 + 1)) (\<lambda>i. cs ! i) t)) [0..<length cs]"
    by (subst map_Fin_nth) (simp only: ewm_mean_Fin a)
  have s: "ewm_mean 26 (map Fin cs) = map (\<lambda>t. Fin (ema (2 / (26 + 1)) (\<lambda>i. cs ! i) t)) [0..<length cs]"
    by (subst map_Fin_nth) (simp only: ewm_mean_Fin a)
  have m: "series_sub (ewm_mean 12 (map Fin cs)) (ewm_mean 26 (map Fin cs))
      = map (\<lambda>t. Fin (macd_line cs t)) [0..<length cs]"
    unfolding f s series_sub_Fin macd_line_def ..
  have g: "ewm_mean 9 (map (\<lambda>t. Fin (macd_line cs t)) [0..<length cs])
      = map (\<lambda>t. Fin (signal_line cs t)) [0..<length cs]"
    unfolding ewm_mean_Fin a signal_line_def ..
  show ?thesis
    unfolding macd_pandas_def Let_def m g series_sub_Fin ..
qed

text \<open>
  Claim C7. On every close series the three MACD columns have a value at every index
  from 0 on; each exponential average is the recursion \<open>EMA[0] = x[0]\<close>,
  \<open>EMA[t] = alpha * x[t] + (1 - alpha) * EMA[t-1]\<close> with \<open>alpha = 2 / (span + 1)\<close>, for
  the spans 12 and 26 on the closes and 9 on the MACD line; and
  \<open>MACD_hist[t] = MACD[t] - MACD_signal[t]\<close> at every index.
\<close>

theorem macd_pandas_recurrence:
  assumes "macd_pandas (map Fin cs) 12 26 9 = (macd, macd_signal, macd_hist)"
  shows "length macd = length cs \<and> length macd_signal = length cs \<and> length macd_hist = length cs
    \<and> (\<forall>t<length cs.
          ewm_mean 12 (map Fin cs) ! t = Fin (ema (2 / (12 + 1)) (\<lambda>i. cs ! i) t)
        \<and> ewm_mean 26 (map Fin cs) ! t = Fin (ema (2 / (26 + 1)) (\<lambda>i. cs ! i) t)
        \<and> macd ! t = Fin (macd_line cs t)
        \<and> macd_signal ! t = Fin (signal_line cs t)
        \<and> macd_hist ! t = Fin (macd_line cs t - signal_line cs t)
        \<and> macd_hist ! t = fsub (macd ! t) (macd_signal ! t))"
proof -
  have a: "ewm_alpha 12 = 2 / (12 + 1)" "ewm_alpha 26 = 2 / (26 + 1)"
    by (simp_all add: ewm_alpha_def)
  have f: "ewm_mean 12 (map Fin cs) = map (\<lambda>t. Fin (ema (2 / (12 + 1)) (\<lambda>i. cs ! i) t)) [0..<length cs]"
    by (subst map_Fin_nth) (simp only: ewm_mean_Fin a)
  have s: "ewm_mean 26 (map Fin cs) = map (\<lambda>t. Fin (ema (2 / (26 + 1)) (\<lambda>i. cs ! i) t)) [0..<length cs]"
    by (subst map_Fin_nth) (simp only: ewm_mean_Fin a)
  have m: "macd = map (\<lambda>t. Fin (macd_line cs t)) [0..<length cs]"
    and g: "macd_signal = map (\<lambda>t. Fin (signal_line cs t)) [0..<length cs]"
    and h: "macd_hist = map (\<lambda>t. Fin (macd_line cs t - signal_line cs t)) [0..<length cs]"
    using assms unfolding macd_pandas_Fin by simp_all
  show ?thesis unfolding f s m g h by (simp add: fsub_def)
qed

theorem macd_pandas_recurrence_witness:
  "case macd_pandas (map Fin [10, 12]) 12 26 9 of (macd, macd_signal, macd_hist) \<Rightarrow>
     macd ! 1 = Fin (56 / 351) \<and> macd_signal ! 1 = Fin (56 / 1755) \<and> macd_hist ! 1 = Fin (224 / 1755)
     \<and> macd_hist ! 1 = fsub (macd ! 1) (macd_signal ! 1)"
proof -
  obtain macd macd_signal macd_hist
    where mp: "macd_pandas (map Fin [10, 12]) 12 26 9 = (macd, macd_signal, macd_hist)"
    by (cases "macd_pandas (map Fin [10, 12]) 12 26 9") auto
  have v: "macd_line [10, 12] (Suc 0) = 56 / 351" "signal_line [10, 12] (Suc 0) = 56 / 1755"
    by (simp_all add: macd_line_def signal_line_def)
  from macd_pandas_recurrence [OF mp, THEN conjunct2, THEN conjunct2, THEN conjunct2, rule_format, of 1]
  show ?thesis unfolding mp by (simp add: v fsub_def)
qed



section \<open>Verification of process\_file\<close>

lemma sort_daily_bars: "sort_key bar.Date (daily_bars c n) = daily_bars c n"
proof (rule sort_key_id_if_sorted)
  have "map bar.Date (daily_bars c n) = map int [0..<n]"
    by (simp add: daily_bars_def comp_def)
  then show "sorted (map bar.Date (daily_bars c n))"
    by (simp add: sorted_iff_nth_mono)
qed

lemma close_daily_bars:
  "map (\<lambda>r. Fin (bar.Close r)) (daily_bars c n) = map Fin (map (\<lambda>i. c + real i) [0..<n])"
  by (simp add: daily_bars_def comp_def)

lemma rolling_mean_Fin_nth:
  assumes "i < length cs" "0 < w"
  shows "rolling_mean w w (map Fin cs) ! i =
     (if i + 1 < w then NaN else Fin (sum_list (drop (i + 1 - w) (take (i + 1) cs)) / real w))"
proof -
  have win: "window_at w (map Fin cs) i = map Fin (drop (i + 1 - w) (take (i + 1) cs))"
    by (simp add: window_at_def take_map drop_map)
  have flt: "filter (\<lambda>x. \<not> isna x) (map Fin xs) = map Fin xs" for xs
    by (induction xs) (simp_all add: isna_def)
  have len: "length (drop (i + 1 - w) (take (i + 1) cs)) = min w (i + 1)"
    using assms by auto
  show ?thesis using assms
    by (auto simp add: rolling_mean_def win flt len Let_def fsum_Fin min_def simp del: map_map)
qed

lemma pct_change_Fin_nth:
  assumes "i < length cs"
  shows "pct_change (map Fin cs) ! i
     = (if i = 0 then NaN else fsub (fdiv (Fin (cs ! i)) (Fin (cs ! (i - 1)))) (Fin 1))"
  using assms by (simp add: pct_change_def)

lemma pct_change_step:
  "fsub (fdiv (Fin (x + 1)) (Fin x)) (Fin 1) = fdiv (Fin 1) (Fin x)"
  by (simp add: fsub_def inf_of_sign_def field_simps)

lemma process_file_rising:
  "sorted_rows (process_file (daily_bars c n)) = daily_bars c n"
  "ret (process_file (daily_bars c n)) = pct_change (map Fin (map (\<lambda>i. c + real i) [0..<n]))"
  "MA20 (process_file (daily_bars c n)) = rolling_mean 20 20 (map Fin (map (\<lambda>i. c + real i) [0..<n]))"
  "RSI14 (process_file (daily_bars c n)) = rsi_wilder (map Fin (map (\<lambda>i. c + real i) [0..<n])) 14"
  by (simp_all add: process_file_def sort_daily_bars close_daily_bars Let_def split: prod.split del: map_map)

lemma rising_sorted: "sorted_wrt (<) (map (\<lambda>i. c + real i) [0..<n])"
  by (simp add: sorted_wrt_iff_nth_less)

text \<open>
  Claim C8, as the code has it. For thirty days whose close rises by exactly 1 a day,
  MA20 is NaN below index 19 and from index 19 on is the mean of the last twenty closes
  (at index 19 the mean of \<open>closes[0..19]\<close>); RSI14 is NaN up to index 13 and 100 from
  index 14 on; \<open>return\<close> is NaN at index 0 and \<open>1 / close[t-1]\<close> from index 1 on.
\<close>

theorem process_file_rising_30:
  "map bar.Close (sorted_rows (process_file (daily_bars c 30))) = map (\<lambda>i. c + real i) [0..<30]
   \<and> (\<forall>t<30. MA20 (process_file (daily_bars c 30)) ! t =
         (if t < 19 then NaN else Fin (sum_list (map (\<lambda>i. c + real i) [t - 19..<t + 1]) / 20)))
   \<and> (\<forall>t<30. RSI14 (process_file (daily_bars c 30)) ! t = (if t < 14 then NaN else Fin 100))
   \<and> (\<forall>t<30. ret (process_file (daily_bars c 30)) ! t =
         (if t = 0 then NaN else fdiv (Fin 1) (Fin (c + real (t - 1)))))"
proof -
  have c1: "map bar.Close (sorted_rows (process_file (daily_bars c 30))) = map (\<lambda>i. c + real i) [0..<30]"
    unfolding process_file_rising by (simp add: daily_bars_def comp_def)
  have c2: "\<forall>t<30. MA20 (process_file (daily_bars c 30)) ! t =
         (if t < 19 then NaN else Fin (sum_list (map (\<lambda>i. c + real i) [t - 19..<t + 1]) / 20))"
  proof (intro allI impI)
    fix t :: nat assume t: "t < 30"
    have "drop (t + 1 - 20) (take (t + 1) (map (\<lambda>i. c + real i) [0..<30]))
        = map (\<lambda>i. c + real i) [t - 19..<t + 1]"
      using t by (simp add: take_map drop_map min_def)
    then show "MA20 (process_file (daily_bars c 30)) ! t =
         (if t < 19 then NaN else Fin (sum_list (map (\<lambda>i. c + real i) [t - 19..<t + 1]) / 20))"
      unfolding process_file_rising using t by (simp add: rolling_mean_Fin_nth del: map_map)
  qed
  have c3: "\<forall>t<30. RSI14 (process_file (daily_bars c 30)) ! t = (if t < 14 then NaN else Fin 100)"
    unfolding process_file_rising by (simp add: rsi_wilder_increasing rising_sorted del: map_map)
  have c4: "\<forall>t<30. ret (process_file (daily_bars c 30)) ! t =
         (if t = 0 then NaN else fdiv (Fin 1) (Fin (c + real (t - 1))))"
  proof (intro allI impI)
    fix t :: nat assume t: "t < 30"
    show "ret (process_file (daily_bars c 30)) ! t =
         (if t = 0 then NaN else fdiv (Fin 1) (Fin (c + real (t - 1))))"
    proof (cases t)
      case 0
      then show ?thesis unfolding process_file_rising by (simp add: pct_change_def)
    next
      case (Suc k)
      have k: "Suc k < 30" using t Suc by simp
      have "pct_change (map Fin (map (\<lambda>i. c + real i) [0..<30])) ! Suc k
          = fsub (fdiv (Fin (c + real k + 1)) (Fin (c + real k))) (Fin 1)"
        using k by (simp add: pct_change_Fin_nth add.commute add.left_commute del: map_map fdiv.simps)
      also have "\<dots> = fdiv (Fin 1) (Fin (c + real k))" by (rule pct_change_step)
      finally show ?thesis unfolding process_file_rising Suc by simp
    qed
  qed
  from c1 c2 c3 c4 show ?thesis by blast
qed

text \<open>
  At index 13 the window of fourteen gains still holds the NaN of \<open>diff\<close> at index 0,
  so RSI14 has no value there: the claim's bound "index 13 and later" is one too low.
\<close>

theorem process_file_rsi_13_counterexample:
  "RSI14 (process_file (daily_bars 1 30)) ! 13 = NaN
   \<and> RSI14 (process_file (daily_bars 1 30)) ! 13 \<noteq> Fin 100"
  unfolding process_file_rising by (simp add: rsi_wilder_Fin_nth del: map_map)

theorem process_file_rising_30_witness:
  "MA20 (process_file (daily_bars 1 30)) ! 18 = NaN
   \<and> MA20 (process_file (daily_bars 1 30)) ! 19 = Fin (21 / 2)
   \<and> RSI14 (process_file (daily_bars 1 30)) ! 13 = NaN
   \<and> RSI14 (process_file (daily_bars 1 30)) ! 14 = Fin 100
   \<and> RSI14 (process_file (daily_bars 1 30)) ! 29 = Fin 100
   \<and> ret (process_file (daily_bars 1 30)) ! 0 = NaN
   \<and> ret (process_file (daily_bars 1 30)) ! 4 = Fin (1 / 4)"
proof -
  note p = process_file_rising_30 [of 1]
  have s: "sum_list (map (\<lambda>i. 1 + real i) [0..<20]) = 210" by code_simp
  have m18: "MA20 (process_file (daily_bars 1 30)) ! 18 = NaN"
    using p [THEN conjunct2, THEN conjunct1, rule_format, of 18] by simp
  have m19: "MA20 (process_file (daily_bars 1 30)) ! 19 = Fin (21 / 2)"
    using p [THEN conjunct2, THEN conjunct1, rule_format, of 19] s by (simp del: upt_Suc)
  have r: "RSI14 (process_file (daily_bars 1 30)) ! 13 = NaN"
    "RSI14 (process_file (daily_bars 1 30)) ! 14 = Fin 100"
    "RSI14 (process_file (daily_bars 1 30)) ! 29 = Fin 100"
    using p [THEN conjunct2, THEN conjunct2, THEN conjunct1, rule_format, of 13]
      p [THEN conjunct2, THEN conjunct2, THEN conjunct1, rule_format, of 14]
      p [THEN conjunct2, THEN conjunct2, THEN conjunct1, rule_format, of 29] by simp_all
  have q: "ret (process_file (daily_bars 1 30)) ! 0 = NaN"
    "ret (process_file (daily_bars 1 30)) ! 4 = Fin (1 / 4)"
    using p [THEN conjunct2, THEN conjunct2, THEN conjunct2, rule_format, of 0]
      p [THEN conjunct2, THEN conjunct2, THEN conjunct2, rule_format, of 4] by simp_all
  from m18 m19 r q show ?thesis by blast
qed


section \<open>Verification of the fallback scorer\<close>


















section \<open>Verification of aggregate\_daily\_sentiment\<close>

lemma distinct_group_keys: "distinct (group_keys u parse news)"
  by (simp add: group_keys_def)

lemma set_group_keys:
  "set (group_keys u parse news)
     = {(news_ticker u r, d) | r d. r \<in> set news \<and> date_only parse r = Some d}"
  by (auto simp add: group_keys_def split: option.splits)

lemma aggregate_keys:
  "map (\<lambda>s. (daily_sentiment.ticker s, daily_sentiment.Date s)) (aggregate_daily_sentiment u parse news)
     = map (\<lambda>k. (fst k, Some (snd k, 0))) (group_keys u parse news)"
  by (simp add: aggregate_daily_sentiment_def aggregate_group_def Let_def comp_def)

lemma distinct_aggregate_keys:
  "distinct (map (\<lambda>s. (daily_sentiment.ticker s, daily_sentiment.Date s))
               (aggregate_daily_sentiment u parse news))"
proof -
  have "inj_on (\<lambda>k :: ustring \<times> int. (fst k, Some (snd k, 0 :: nat))) (set (group_keys u parse news))"
    by (rule inj_onI) (auto simp add: prod_eq_iff)
  then show ?thesis unfolding aggregate_keys
    by (simp add: distinct_map distinct_group_keys)
qed

lemma aggregate_member:
  assumes "s \<in> set (aggregate_daily_sentiment u parse news)"
  shows "\<exists>d. daily_sentiment.Date s = Some (d, 0)
      \<and> (\<exists>r \<in> set news. news_ticker u r = daily_sentiment.ticker s \<and> date_only parse r = Some d)
      \<and> daily_sentiment.news_count s
          = length (filter (\<lambda>r. news_ticker u r = daily_sentiment.ticker s \<and> date_only parse r = Some d
                                \<and> notna (headline r)) news)"
proof -
  from assms obtain k where k: "k \<in> set (group_keys u parse news)"
    and s: "s = aggregate_group u k (group_rows u parse news k)"
    by (auto simp add: aggregate_daily_sentiment_def)
  from k obtain r where r: "r \<in> set news" "news_ticker u r = fst k" "date_only parse r = Some (snd k)"
    unfolding set_group_keys by auto
  have c: "daily_sentiment.news_count s
      = length (filter (\<lambda>r. news_ticker u r = fst k \<and> date_only parse r = Some (snd k)
                            \<and> notna (headline r)) news)"
    by (simp add: s aggregate_group_def group_rows_def Let_def conj_commute conj_left_commute)
  have t: "daily_sentiment.ticker s = fst k" "daily_sentiment.Date s = Some (snd k, 0)"
    by (simp_all add: s aggregate_group_def Let_def)
  show ?thesis using r c t by auto
qed

lemma aggregate_covers:
  assumes "r \<in> set news" "date_only parse r = Some d"
  shows "\<exists>s \<in> set (aggregate_daily_sentiment u parse news).
     daily_sentiment.ticker s = news_ticker u r \<and> daily_sentiment.Date s = Some (d, 0)"
proof -
  have "(news_ticker u r, d) \<in> set (group_keys u parse news)"
    unfolding set_group_keys using assms by auto
  then have "aggregate_group u (news_ticker u r, d) (group_rows u parse news (news_ticker u r, d))
      \<in> set (aggregate_daily_sentiment u parse news)"
    by (simp add: aggregate_daily_sentiment_def)
  then show ?thesis
    by (rule rev_bexI) (simp add: aggregate_group_def Let_def)
qed

text \<open>
  Claim C6, as the code has it. The output has at most one record per (ticker, day); a
  record exists exactly for the keys of the news rows whose date could be read; and
  \<open>news_count\<close> is the number of rows of the group whose headline is present. So it is
  at least 1 when no headline is missing, and it is 0 for a group whose headlines are
  all missing: that group is in the output.
\<close>

theorem aggregate_daily_sentiment_groups:
  "distinct (map (\<lambda>s. (daily_sentiment.ticker s, daily_sentiment.Date s))
               (aggregate_daily_sentiment u parse news))
   \<and> (\<forall>s \<in> set (aggregate_daily_sentiment u parse news).
         \<exists>d. daily_sentiment.Date s = Some (d, 0)
           \<and> (\<exists>r \<in> set news. news_ticker u r = daily_sentiment.ticker s \<and> date_only parse r = Some d)
           \<and> daily_sentiment.news_count s
               = length (filter (\<lambda>r. news_ticker u r = daily_sentiment.ticker s
                                     \<and> date_only parse r = Some d \<and> notna (headline r)) news))
   \<and> (\<forall>r \<in> set news. \<forall>d. date_only parse r = Some d \<longrightarrow>
         (\<exists>s \<in> set (aggregate_daily_sentiment u parse news).
            daily_sentiment.ticker s = news_ticker u r \<and> daily_sentiment.Date s = Some (d, 0)))
   \<and> ((\<forall>r \<in> set news. notna (headline r)) \<longrightarrow>
         (\<forall>s \<in> set (aggregate_daily_sentiment u parse news). 0 < daily_sentiment.news_count s))"
proof -
  have c4: "0 < daily_sentiment.news_count s"
    if all: "\<forall>r \<in> set news. notna (headline r)" and s: "s \<in> set (aggregate_daily_sentiment u parse news)" for s
  proof -
    from aggregate_member [OF s] obtain d r where
      r: "r \<in> set news" "news_ticker u r = daily_sentiment.ticker s" "date_only parse r = Some d"
      and c: "daily_sentiment.news_count s
          = length (filter (\<lambda>r. news_ticker u r = daily_sentiment.ticker s \<and> date_only parse r = Some d
                                \<and> notna (headline r)) news)"
      by blast
    have "r \<in> set (filter (\<lambda>r. news_ticker u r = daily_sentiment.ticker s \<and> date_only parse r = Some d
                                \<and> notna (headline r)) news)"
      using r all by simp
    then show ?thesis unfolding c by (metis length_pos_if_in_set)
  qed
  show ?thesis
    using distinct_aggregate_keys aggregate_member aggregate_covers c4 by blast
qed

lemma aggregate_null_headline:
  "aggregate_daily_sentiment ascii_fns example_parse news_null_headline =
     [\<lparr> daily_sentiment.ticker = ascii ''AAPL'', Date = Some (18263, 0), avg_sentiment = Fin 0,
        min_sentiment = Fin 0, max_sentiment = Fin 0, news_count = 0 \<rparr>]"
  by code_simp

text \<open>
  One news row with a readable date and an empty headline: the group exists, its polarity
  is that of the text \<open>nan\<close>, and \<open>count\<close> of \<open>headline\<close> is 0.
\<close>

theorem aggregate_zero_count_counterexample:
  "map daily_sentiment.news_count (aggregate_daily_sentiment ascii_fns example_parse news_null_headline) = [0]"
  by (simp add: aggregate_null_headline)

lemma aggregate_two_days:
  "aggregate_daily_sentiment ascii_fns example_parse news_two_days =
     [\<lparr> daily_sentiment.ticker = ascii ''AAPL'', Date = Some (18264, 0), avg_sentiment = Fin (1 / 3),
        min_sentiment = Fin (- (1 / 2)), max_sentiment = Fin 1, news_count = 3 \<rparr>]"
  by code_simp

theorem aggregate_daily_sentiment_groups_witness:
  "distinct (map (\<lambda>s. (daily_sentiment.ticker s, daily_sentiment.Date s))
               (aggregate_daily_sentiment ascii_fns example_parse news_two_days))
   \<and> 0 < daily_sentiment.news_count (hd (aggregate_daily_sentiment ascii_fns example_parse news_two_days))
   \<and> daily_sentiment.news_count (hd (aggregate_daily_sentiment ascii_fns example_parse news_two_days)) = 3"
proof -
  have all: "\<forall>r \<in> set news_two_days. notna (headline r)"
    by (simp add: news_two_days_def)
  have m: "hd (aggregate_daily_sentiment ascii_fns example_parse news_two_days)
      \<in> set (aggregate_daily_sentiment ascii_fns example_parse news_two_days)"
    by (simp add: aggregate_two_days)
  note g = aggregate_daily_sentiment_groups [of ascii_fns example_parse news_two_days]
  have "0 < daily_sentiment.news_count (hd (aggregate_daily_sentiment ascii_fns example_parse news_two_days))"
    using g [THEN conjunct2, THEN conjunct2, THEN conjunct2] all m by blast
  moreover have "daily_sentiment.news_count (hd (aggregate_daily_sentiment ascii_fns example_parse news_two_days)) = 3"
    by (simp add: aggregate_two_days)
  ultimately show ?thesis using g [THEN conjunct1] by blast
qed



section \<open>Rows whose date cannot be read\<close>

lemma prepare_price_df_raises:
  assumes "\<exists>r \<in> set csv. unparsable parse (Date_cell r)"
  shows "prepare_price_df u parse csv = Inl DateParseError"
  using assms by (auto simp add: prepare_price_df_def to_datetime_raise_def)

lemma coerce_unparsable: "unparsable parse c \<Longrightarrow> to_datetime_coerce parse c = None"
  by (cases c) (simp_all add: unparsable_def to_datetime_coerce_def)

lemma news_unparsable_in_no_group:
  assumes "unparsable parse (date r)"
  shows "r \<notin> set (group_rows u parse news k)"
  using assms by (simp add: group_rows_def date_only_def coerce_unparsable)

text \<open>
  Claim C9 at a failing input. A price row whose date the parser cannot read makes
  \<open>prepare_price_df\<close> raise, and the run ends there; the same date in a news row is
  coerced to \<open>NaT\<close> and the row falls out of every group.
\<close>

theorem prepare_price_df_bad_date_raises:
  "prepare_price_df ascii_fns example_parse prices_bad_date = Inl DateParseError
   \<and> aggregate_daily_sentiment ascii_fns example_parse news_bad_date = []"
  by code_simp


section \<open>Verification of merge\_and\_analyze\<close>

lemma truncate_with_sentiment [simp]: "price_row.truncate (with_sentiment p so) = p"
  by (cases so) (simp_all add: with_sentiment_def price_row.truncate_def price_row.extend_def)

lemma with_sentiment_None [simp]:
  "merged_row.avg_sentiment (with_sentiment p None) = Fin 0"
  "merged_row.news_count (with_sentiment p None) = 0"
  "merged_row.min_sentiment (with_sentiment p None) = NaN"
  "merged_row.max_sentiment (with_sentiment p None) = NaN"
  by (simp_all add: with_sentiment_def price_row.extend_def merged_row.fields_def fillna0_def isna_def)

lemma left_merge_join: "left_merge price_df sentiment_df = concat (map (join_rows sentiment_df) price_df)"
  by (simp add: left_merge_def)

lemma join_rows_truncate: "m \<in> set (join_rows sentiment_df p) \<Longrightarrow> price_row.truncate m = p"
  by (auto simp add: join_rows_def split: list.splits)

lemma join_rows_nonempty: "join_rows sentiment_df p \<noteq> []"
  by (simp add: join_rows_def split: list.splits)

lemma join_rows_unmatched: "partners sentiment_df p = [] \<Longrightarrow> join_rows sentiment_df p = [with_sentiment p None]"
  by (simp add: join_rows_def)

lemma merged_fst: "fst (merge_and_analyze pearsonr price_df sentiment_df) = left_merge price_df sentiment_df"
  by (simp add: merge_and_analyze_def Let_def)

lemma filter_key_le1:
  "distinct (map f xs) \<Longrightarrow> length (filter (\<lambda>x. f x = k) xs) \<le> 1"
proof (induction xs)
  case Nil
  then show ?case by simp
next
  case (Cons x xs)
  show ?case
  proof (cases "f x = k")
    case True
    then have "\<forall>y \<in> set xs. f y \<noteq> k" using Cons.prems by (auto simp add: image_iff)
    then have "filter (\<lambda>x. f x = k) xs = []" by (simp add: filter_empty_conv)
    then show ?thesis using True by simp
  next
    case False
    then show ?thesis using Cons by simp
  qed
qed

lemma partners_le1:
  assumes "distinct (map (\<lambda>s. (daily_sentiment.ticker s, daily_sentiment.Date s)) sentiment_df)"
  shows "length (partners sentiment_df p) \<le> 1"
proof -
  have "partners sentiment_df p
      = filter (\<lambda>s. (daily_sentiment.ticker s, daily_sentiment.Date s)
                       = (price_row.ticker p, price_row.Date p)) sentiment_df"
    by (simp add: partners_def)
  then show ?thesis
    using filter_key_le1 [OF assms, of "(price_row.ticker p, price_row.Date p)"] by simp
qed

lemma join_rows_single:
  assumes "distinct (map (\<lambda>s. (daily_sentiment.ticker s, daily_sentiment.Date s)) sentiment_df)"
  shows "map price_row.truncate (join_rows sentiment_df p) = [p]"
proof (cases "partners sentiment_df p")
  case Nil
  then show ?thesis by (simp add: join_rows_def)
next
  case (Cons s ss)
  then have "ss = []" using partners_le1 [OF assms, of p] by simp
  then show ?thesis using Cons by (simp add: join_rows_def)
qed

lemma left_merge_rows:
  assumes "distinct (map (\<lambda>s. (daily_sentiment.ticker s, daily_sentiment.Date s)) sentiment_df)"
  shows "map price_row.truncate (left_merge price_df sentiment_df) = price_df"
  unfolding left_merge_join
  by (induction price_df) (simp_all add: join_rows_single [OF assms])

text \<open>
  Claim C10. When the keys \<open>(ticker, Date)\<close> of the sentiment table are distinct, as they
  are in the aggregator's output, the merged table has exactly one row for each price
  row, in the same order, and each merged row is its price row with every column
  unchanged (\<open>daily_return\<close> included) and the sentiment columns appended.
\<close>

theorem merge_keeps_price_rows:
  assumes "distinct (map (\<lambda>s. (daily_sentiment.ticker s, daily_sentiment.Date s)) sentiment_df)"
    and "merge_and_analyze pearsonr price_df sentiment_df = (merged, per_ticker_corr, global_stats)"
  shows "length merged = length price_df
    \<and> map price_row.truncate merged = price_df
    \<and> (\<forall>i < length price_df.
          price_row.ticker (merged ! i) = price_row.ticker (price_df ! i)
        \<and> price_row.Date (merged ! i) = price_row.Date (price_df ! i)
        \<and> price_row.Close (merged ! i) = price_row.Close (price_df ! i)
        \<and> price_row.other (merged ! i) = price_row.other (price_df ! i)
        \<and> price_row.daily_return (merged ! i) = price_row.daily_return (price_df ! i))"
proof -
  have m: "merged = left_merge price_df sentiment_df"
    using assms(2) merged_fst [of pearsonr price_df sentiment_df] by simp
  have t: "map price_row.truncate merged = price_df"
    unfolding m by (rule left_merge_rows [OF assms(1)])
  then have l: "length merged = length price_df"
    by (metis length_map)
  have "price_row.truncate (merged ! i) = price_df ! i" if "i < length price_df" for i
    using t l that by (metis nth_map)
  then have "\<forall>i < length price_df.
          price_row.ticker (merged ! i) = price_row.ticker (price_df ! i)
        \<and> price_row.Date (merged ! i) = price_row.Date (price_df ! i)
        \<and> price_row.Close (merged ! i) = price_row.Close (price_df ! i)
        \<and> price_row.other (merged ! i) = price_row.other (price_df ! i)
        \<and> price_row.daily_return (merged ! i) = price_row.daily_return (price_df ! i)"
    by (metis price_row.select_convs price_row.truncate_def)
  with t l show ?thesis by blast
qed

text \<open>
  Claim C4. A price row without a sentiment partner has a merged row with
  \<open>avg_sentiment = 0\<close> and \<open>news_count = 0\<close>, and every merged row without a partner has
  these values. The merge never fills \<open>daily_return\<close>: each merged row carries the return
  of its price row, so a missing return stays NaN while \<open>avg_sentiment\<close> is never NaN.
\<close>

theorem unmatched_rows_neutral:
  assumes "merge_and_analyze pearsonr price_df sentiment_df = (merged, per_ticker_corr, global_stats)"
  shows "(\<forall>p \<in> set price_df. partners sentiment_df p = [] \<longrightarrow>
           (\<exists>m \<in> set merged. price_row.truncate m = p
              \<and> merged_row.avg_sentiment m = Fin 0 \<and> merged_row.news_count m = 0
              \<and> price_row.daily_return m = price_row.daily_return p))
    \<and> (\<forall>m \<in> set merged. partners sentiment_df (price_row.truncate m) = [] \<longrightarrow>
           merged_row.avg_sentiment m = Fin 0 \<and> merged_row.news_count m = 0)
    \<and> (\<forall>m \<in> set merged. price_row.truncate m \<in> set price_df
           \<and> \<not> isna (merged_row.avg_sentiment m))"
proof -
  have m: "merged = left_merge price_df sentiment_df"
    using assms merged_fst [of pearsonr price_df sentiment_df] by simp
  have a: "\<exists>m \<in> set merged. price_row.truncate m = p
              \<and> merged_row.avg_sentiment m = Fin 0 \<and> merged_row.news_count m = 0
              \<and> price_row.daily_return m = price_row.daily_return p"
    if p: "p \<in> set price_df" and u: "partners sentiment_df p = []" for p
  proof -
    have "with_sentiment p None \<in> set (join_rows sentiment_df p)"
      by (simp add: join_rows_unmatched [OF u])
    then have "with_sentiment p None \<in> set merged"
      unfolding m left_merge_join using p by auto
    moreover have "price_row.daily_return (with_sentiment p None) = price_row.daily_return p"
      by (simp add: with_sentiment_def price_row.extend_def)
    ultimately show ?thesis by (intro bexI [of _ "with_sentiment p None"]) simp_all
  qed
  have origin: "\<exists>p \<in> set price_df. m' \<in> set (join_rows sentiment_df p)" if "m' \<in> set merged" for m'
    using that unfolding m left_merge_join by auto
  have b: "merged_row.avg_sentiment m' = Fin 0 \<and> merged_row.news_count m' = 0"
    if m': "m' \<in> set merged" and u: "partners sentiment_df (price_row.truncate m') = []" for m'
  proof -
    from origin [OF m'] obtain p where p: "p \<in> set price_df" "m' \<in> set (join_rows sentiment_df p)"
      by blast
    then have "price_row.truncate m' = p" by (simp add: join_rows_truncate)
    then have "m' = with_sentiment p None" using p u by (simp add: join_rows_unmatched)
    then show ?thesis by simp
  qed
  have c: "price_row.truncate m' \<in> set price_df \<and> \<not> isna (merged_row.avg_sentiment m')"
    if m': "m' \<in> set merged" for m'
  proof -
    from origin [OF m'] obtain p where p: "p \<in> set price_df" "m' \<in> set (join_rows sentiment_df p)"
      by blast
    then have t: "price_row.truncate m' = p" by (simp add: join_rows_truncate)
    from p(2) obtain so where "m' = with_sentiment p so"
      by (auto simp add: join_rows_def split: list.splits)
    then have "\<not> isna (merged_row.avg_sentiment m')"
      by (cases so) (simp_all add: with_sentiment_def price_row.extend_def merged_row.fields_def
          fillna0_def isna_def)
    with t p show ?thesis by simp
  qed
  from a b c show ?thesis by blast
qed







lemma prepare_two_days: "prepare_price_df ascii_fns example_parse prices_two_days = Inr prepared_two_days"
  by code_simp





lemma partners_first_day:
  "partners (aggregate_daily_sentiment ascii_fns example_parse news_two_days) (prepared_two_days ! 0) = []"
  unfolding aggregate_two_days by code_simp

lemma merged_two_days_hd:
  "price_row.truncate (hd (fst (merge_and_analyze pearson_stub prepared_two_days
      (aggregate_daily_sentiment ascii_fns example_parse news_two_days)))) = prepared_two_days ! 0"
  "hd (fst (merge_and_analyze pearson_stub prepared_two_days
      (aggregate_daily_sentiment ascii_fns example_parse news_two_days)))
    \<in> set (fst (merge_and_analyze pearson_stub prepared_two_days
      (aggregate_daily_sentiment ascii_fns example_parse news_two_days)))"
  "isna (price_row.daily_return (prepared_two_days ! 0))"
  unfolding aggregate_two_days by code_simp+

theorem unmatched_rows_neutral_witness:
  "prepare_price_df ascii_fns example_parse prices_two_days = Inr prepared_two_days
   \<and> partners (aggregate_daily_sentiment ascii_fns example_parse news_two_days) (prepared_two_days ! 0) = []
   \<and> merged_row.avg_sentiment (hd (fst (merge_and_analyze pearson_stub prepared_two_days
        (aggregate_daily_sentiment ascii_fns example_parse news_two_days)))) = Fin 0
   \<and> merged_row.news_count (hd (fst (merge_and_analyze pearson_stub prepared_two_days
        (aggregate_daily_sentiment ascii_fns example_parse news_two_days)))) = 0
   \<and> isna (price_row.daily_return (hd (fst (merge_and_analyze pearson_stub prepared_two_days
        (aggregate_daily_sentiment ascii_fns example_parse news_two_days)))))"
proof -
  define sdf where "sdf = aggregate_daily_sentiment ascii_fns example_parse news_two_days"
  define merged where "merged = fst (merge_and_analyze pearson_stub prepared_two_days sdf)"
  obtain per glob where mp: "merge_and_analyze pearson_stub prepared_two_days sdf = (merged, per, glob)"
    unfolding merged_def by (cases "merge_and_analyze pearson_stub prepared_two_days sdf") simp
  have h: "hd merged \<in> set merged" and t: "price_row.truncate (hd merged) = prepared_two_days ! 0"
    unfolding merged_def sdf_def by (rule merged_two_days_hd)+
  have u: "partners sdf (price_row.truncate (hd merged)) = []"
    unfolding t sdf_def by (rule partners_first_day)
  from unmatched_rows_neutral [OF mp, THEN conjunct2, THEN conjunct1, rule_format, OF h u]
  have a: "merged_row.avg_sentiment (hd merged) = Fin 0" "merged_row.news_count (hd merged) = 0"
    by simp_all
  have "price_row.daily_return (hd merged) = price_row.daily_return (price_row.truncate (hd merged))"
    by (simp add: price_row.truncate_def)
  then have r: "isna (price_row.daily_return (hd merged))"
    unfolding t using merged_two_days_hd(3) by simp
  from prepare_two_days partners_first_day a r show ?thesis
    unfolding merged_def sdf_def by blast
qed

theorem merge_keeps_price_rows_witness:
  "distinct (map (\<lambda>s. (daily_sentiment.ticker s, daily_sentiment.Date s))
               (aggregate_daily_sentiment ascii_fns example_parse news_two_days))
   \<and> length (fst (merge_and_analyze pearson_stub prepared_two_days
        (aggregate_daily_sentiment ascii_fns example_parse news_two_days))) = 2
   \<and> map price_row.truncate (fst (merge_and_analyze pearson_stub prepared_two_days
        (aggregate_daily_sentiment ascii_fns example_parse news_two_days))) = prepared_two_days"
proof -
  define sdf where "sdf = aggregate_daily_sentiment ascii_fns example_parse news_two_days"
  define merged where "merged = fst (merge_and_analyze pearson_stub prepared_two_days sdf)"
  obtain per glob where mp: "merge_and_analyze pearson_stub prepared_two_days sdf = (merged, per, glob)"
    unfolding merged_def by (cases "merge_and_analyze pearson_stub prepared_two_days sdf") simp
  have d: "distinct (map (\<lambda>s. (daily_sentiment.ticker s, daily_sentiment.Date s)) sdf)"
    unfolding sdf_def aggregate_two_days by simp
  have l: "length prepared_two_days = 2" by (simp add: prepared_two_days_def)
  from merge_keeps_price_rows [OF d mp] d l show ?thesis
    unfolding merged_def sdf_def by simp
qed

end
